theory Spec2Isabelle
  imports Complex_Main "HOL-Library.Word"
begin

section \<open>Strings of the audio-to-text handler\<close>

text \<open>
  A JavaScript string is a sequence of 16-bit code units. Literals of the source are
  written through \<open>asc\<close>, which maps an ASCII literal to its code units.
\<close>

type_synonym jsstring = "16 word list"

definition asc :: "string \<Rightarrow> jsstring" where
  "asc s = map (\<lambda>c. of_char c) s"

text \<open>
  The characters removed by \<^verbatim>\<open>String.prototype.trim\<close> and matched by a regular
  expression's \<^verbatim>\<open>\s\<close>: WhiteSpace (TAB, VT, FF, the space separators, ZWNBSP) and
  LineTerminator (LF, CR, LS, PS).
\<close>

definition isWhiteSpace :: "16 word \<Rightarrow> bool" where
  "isWhiteSpace c \<longleftrightarrow>
     c = 0x09 \<or> c = 0x0A \<or> c = 0x0B \<or> c = 0x0C \<or> c = 0x0D \<or> c = 0x20 \<or> c = 0xA0 \<or>
     c = 0x1680 \<or> (0x2000 \<le> c \<and> c \<le> 0x200A) \<or> c = 0x2028 \<or> c = 0x2029 \<or>
     c = 0x202F \<or> c = 0x205F \<or> c = 0x3000 \<or> c = 0xFEFF"

text \<open>\<^verbatim>\<open>s.trim()\<close>: the string without its leading and trailing white space.\<close>

definition trim :: "jsstring \<Rightarrow> jsstring" where
  "trim s = rev (dropWhile isWhiteSpace (rev (dropWhile isWhiteSpace s)))"

text \<open>The character class \<^verbatim>\<open>[.!?]\<close>.\<close>

definition isTerminal :: "16 word \<Rightarrow> bool" where
  "isTerminal c \<longleftrightarrow> c = 0x2E \<or> c = 0x21 \<or> c = 0x3F"

text \<open>
  \<^verbatim>\<open>/[.!?][\s]*$/.test(t)\<close>: the pattern has no flags, so \<^verbatim>\<open>$\<close> is the end of
  the input, and \<^verbatim>\<open>test\<close> tries every start position \<open>i\<close>: one character of the
  class at \<open>i\<close>, then white space only up to the end.
\<close>

definition punctuation_test :: "jsstring \<Rightarrow> bool" where
  "punctuation_test t =
     list_ex (\<lambda>i. isTerminal (t ! i) \<and> list_all isWhiteSpace (drop (Suc i) t)) [0..<length t]"

section \<open>Segments and sentences\<close>

text \<open>
  A segment of the inference output, \<^verbatim>\<open>{start: number; end: number; text: string}\<close>,
  and an element of \<^verbatim>\<open>sentenceTimestamps\<close>. Times are numbers of the source (IEEE
  doubles); the model is parametric in the number type \<open>'t\<close> and in its subtraction.
\<close>

record 't segment =
  seg_start :: 't
  seg_end :: 't
  seg_text :: jsstring

record 't sentence_ts =
  sentence :: jsstring
  start_time :: 't
  end_time :: 't
  duration :: 't

datatype js_error = TypeError

text \<open>
  \<^verbatim>\<open>output.segments[i]\<close> followed by a property read: out of range the array yields
  \<^verbatim>\<open>undefined\<close> and the property read throws a TypeError.
\<close>

definition segment_at :: "'t segment list \<Rightarrow> nat \<Rightarrow> js_error + 't segment" where
  "segment_at segs i = (if i < length segs then Inr (segs ! i) else Inl TypeError)"

section \<open>The sentence grouping loop\<close>

record 't loop_state =
  currentSentence :: jsstring
  sentenceStart :: 't
  sentenceTimestamps :: "'t sentence_ts list"

text \<open>
  One iteration of the \<^verbatim>\<open>for\<close> loop at index \<open>i\<close>. The tests
  \<^verbatim>\<open>i === output.segments.length - 1\<close> and \<^verbatim>\<open>i < output.segments.length - 1\<close> are
  written with \<open>Suc i\<close>, which avoids the truncated subtraction of \<open>nat\<close>.
\<close>

definition loop_body :: "('t::minus) segment list \<Rightarrow> nat \<Rightarrow> 't loop_state \<Rightarrow> js_error + 't loop_state" where
  "loop_body segs i st =
     (case segment_at segs i of
        Inl e \<Rightarrow> Inl e
      | Inr segm \<Rightarrow>
          let cur = currentSentence st @ seg_text segm;
              endsWithPunctuation = punctuation_test (trim (seg_text segm));
              isLastSegment = (Suc i = length segs)
          in if endsWithPunctuation \<or> isLastSegment then
               let pushed = sentenceTimestamps st @
                     [\<lparr>sentence = trim cur, start_time = sentenceStart st,
                       end_time = seg_end segm, duration = seg_end segm - sentenceStart st\<rparr>]
               in if Suc i < length segs then
                    (case segment_at segs (i + 1) of
                       Inl e \<Rightarrow> Inl e
                     | Inr nxt \<Rightarrow>
                         Inr \<lparr>currentSentence = [], sentenceStart = seg_start nxt,
                              sentenceTimestamps = pushed\<rparr>)
                  else Inr \<lparr>currentSentence = cur, sentenceStart = sentenceStart st,
                            sentenceTimestamps = pushed\<rparr>
             else Inr \<lparr>currentSentence = cur, sentenceStart = sentenceStart st,
                       sentenceTimestamps = sentenceTimestamps st\<rparr>)"

function for_loop :: "('t::minus) segment list \<Rightarrow> nat \<Rightarrow> 't loop_state \<Rightarrow> js_error + 't loop_state" where
  "for_loop segs i st =
     (if i < length segs then
        (case loop_body segs i st of
           Inl e \<Rightarrow> Inl e
         | Inr st' \<Rightarrow> for_loop segs (i + 1) st')
      else Inr st)"
  by pat_completeness auto
termination
  by (relation "measure (\<lambda>(segs, i, st). length segs - i)") auto

text \<open>
  The block that fills \<^verbatim>\<open>sentenceTimestamps\<close> from \<^verbatim>\<open>output.segments\<close>, which the
  inference result may leave undefined (\<open>None\<close>).
\<close>

definition sentence_grouping :: "('t::minus) segment list option \<Rightarrow> js_error + 't sentence_ts list" where
  "sentence_grouping segments =
     (case segments of
        None \<Rightarrow> Inr []
      | Some segs \<Rightarrow>
          if length segs > 0 then
            (case segment_at segs 0 of
               Inl e \<Rightarrow> Inl e
             | Inr first \<Rightarrow>
                 (case for_loop segs 0
                         \<lparr>currentSentence = [], sentenceStart = seg_start first,
                          sentenceTimestamps = []\<rparr> of
                    Inl e \<Rightarrow> Inl e
                  | Inr st \<Rightarrow> Inr (sentenceTimestamps st)))
          else Inr [])"

section \<open>The aggregator as the specification words it\<close>

text \<open>
  The specification's test: the text ends with \<open>.\<close>, \<open>!\<close> or \<open>?\<close>, optionally followed by
  trailing white space. It is read from the end of the text: skip the trailing white
  space, then look at the character before it.
\<close>

definition spec_ends_terminal :: "jsstring \<Rightarrow> bool" where
  "spec_ends_terminal t =
     (case dropWhile isWhiteSpace (rev t) of [] \<Rightarrow> False | c # _ \<Rightarrow> isTerminal c)"

text \<open>
  The specification's algorithm as a fold over the segments that carries the accumulator
  and the current sentence start: append the raw text; if the trimmed segment text passes
  the test or the segment is the last one, emit the sentence; if more segments remain,
  go on with an empty accumulator and the start of the following segment.
\<close>

fun spec_fold :: "jsstring \<Rightarrow> 't \<Rightarrow> ('t::minus) segment list \<Rightarrow> 't sentence_ts list" where
  "spec_fold acc st [] = []"
| "spec_fold acc st (s # rest) =
     (if spec_ends_terminal (trim (seg_text s)) \<or> rest = [] then
        \<lparr>sentence = trim (acc @ seg_text s), start_time = st,
         end_time = seg_end s, duration = seg_end s - st\<rparr> #
        (case rest of [] \<Rightarrow> [] | nxt # _ \<Rightarrow> spec_fold [] (seg_start nxt) rest)
      else spec_fold (acc @ seg_text s) st rest)"

definition spec_aggregate :: "('t::minus) segment list \<Rightarrow> 't sentence_ts list" where
  "spec_aggregate segs = (case segs of [] \<Rightarrow> [] | s # _ \<Rightarrow> spec_fold [] (seg_start s) segs)"

text \<open>
  The partition behind the fold: the contiguous runs of segments, each ending after a
  segment that passes the test or after the final segment, and the sentence of a run.
\<close>

definition closes :: "'t segment \<Rightarrow> bool" where
  "closes s = punctuation_test (trim (seg_text s))"

fun runs :: "'t segment list \<Rightarrow> 't segment list list" where
  "runs [] = []"
| "runs (s # rest) =
     (if closes s \<or> rest = [] then [s] # runs rest
      else (case runs rest of [] \<Rightarrow> [[s]] | r # rs \<Rightarrow> (s # r) # rs))"

definition sentence_of_run :: "('t::minus) segment list \<Rightarrow> 't sentence_ts" where
  "sentence_of_run r =
     \<lparr>sentence = trim (concat (map seg_text r)), start_time = seg_start (hd r),
      end_time = seg_end (last r), duration = seg_end (last r) - seg_start (hd r)\<rparr>"

section \<open>The parameter bag forwarded to the inference client\<close>

datatype jsval = JUndefined | JString jsstring | JNumber real | JBoolean bool

text \<open>
  The arguments of the handler as the schema delivers them: \<open>None\<close> is an absent
  (\<^verbatim>\<open>undefined\<close>) optional parameter. The schema's \<^verbatim>\<open>z.number()\<close> rejects NaN.
\<close>

record handler_args =
  audio_file :: jsstring
  language :: "jsstring option"
  language_detection_min_prob :: "real option"
  language_detection_max_tries :: "real option"
  initial_prompt :: "jsstring option"
  batch_size :: "real option"
  temperature :: "real option"
  vad_onset :: "real option"
  vad_offset :: "real option"
  align_output :: "bool option"
  diarization :: "bool option"
  huggingface_access_token :: "jsstring option"
  min_speakers :: "real option"
  max_speakers :: "real option"
  debug :: "bool option"
  filename :: "jsstring option"

definition opt_string :: "jsstring option \<Rightarrow> jsval" where
  "opt_string v = (case v of None \<Rightarrow> JUndefined | Some s \<Rightarrow> JString s)"

definition opt_number :: "real option \<Rightarrow> jsval" where
  "opt_number v = (case v of None \<Rightarrow> JUndefined | Some n \<Rightarrow> JNumber n)"

text \<open>A destructuring default \<^verbatim>\<open>x = d\<close>: it applies when the property is undefined.\<close>

definition with_default :: "'a option \<Rightarrow> 'a \<Rightarrow> 'a" where
  "with_default v d = (case v of None \<Rightarrow> d | Some x \<Rightarrow> x)"

text \<open>
  The value of the handler's variable named \<open>k\<close> after the destructuring of its
  parameter, with the defaults of the parameter list.
\<close>

definition param_value :: "handler_args \<Rightarrow> string \<Rightarrow> jsval" where
  "param_value a k =
     (if k = ''language'' then JString (with_default (language a) (asc ''en''))
      else if k = ''language_detection_min_prob'' then opt_number (language_detection_min_prob a)
      else if k = ''language_detection_max_tries'' then opt_number (language_detection_max_tries a)
      else if k = ''initial_prompt'' then opt_string (initial_prompt a)
      else if k = ''batch_size'' then JNumber (with_default (batch_size a) 64)
      else if k = ''temperature'' then JNumber (with_default (temperature a) 0)
      else if k = ''vad_onset'' then JNumber (with_default (vad_onset a) 0.5)
      else if k = ''vad_offset'' then JNumber (with_default (vad_offset a) 0.363)
      else if k = ''align_output'' then JBoolean (with_default (align_output a) True)
      else if k = ''diarization'' then JBoolean (with_default (diarization a) True)
      else if k = ''huggingface_access_token'' then opt_string (huggingface_access_token a)
      else if k = ''min_speakers'' then opt_number (min_speakers a)
      else if k = ''max_speakers'' then opt_number (max_speakers a)
      else if k = ''debug'' then JBoolean (with_default (debug a) False)
      else if k = ''filename'' then opt_string (filename a)
      else JUndefined)"

text \<open>The two guards of the source: \<^verbatim>\<open>if (x)\<close> and \<^verbatim>\<open>if (x !== undefined)\<close>.\<close>

datatype guard = Truthy | Defined

fun truthy :: "jsval \<Rightarrow> bool" where
  "truthy JUndefined = False"
| "truthy (JString s) = (s \<noteq> [])"
| "truthy (JNumber n) = (n \<noteq> 0)"
| "truthy (JBoolean b) = b"

fun passes :: "guard \<Rightarrow> jsval \<Rightarrow> bool" where
  "passes Truthy v = truthy v"
| "passes Defined v = (v \<noteq> JUndefined)"

text \<open>The fourteen guarded assignments to \<^verbatim>\<open>input\<close>, in the order of the source.\<close>

definition input_guards :: "(string \<times> guard) list" where
  "input_guards =
     [(''language'', Truthy),
      (''initial_prompt'', Truthy),
      (''language_detection_min_prob'', Truthy),
      (''language_detection_max_tries'', Truthy),
      (''temperature'', Defined),
      (''batch_size'', Defined),
      (''vad_onset'', Defined),
      (''vad_offset'', Defined),
      (''align_output'', Defined),
      (''diarization'', Defined),
      (''debug'', Defined),
      (''huggingface_access_token'', Truthy),
      (''min_speakers'', Defined),
      (''max_speakers'', Defined)]"

definition assign_if :: "handler_args \<Rightarrow> (string \<rightharpoonup> jsval) \<Rightarrow> string \<times> guard \<Rightarrow> (string \<rightharpoonup> jsval)" where
  "assign_if a input kg =
     (if passes (snd kg) (param_value a (fst kg))
      then input(fst kg \<mapsto> param_value a (fst kg)) else input)"

definition build_input :: "jsstring \<Rightarrow> handler_args \<Rightarrow> (string \<rightharpoonup> jsval)" where
  "build_input publicUrl a =
     foldl (assign_if a) [''audio_file'' \<mapsto> JString publicUrl] input_guards"

definition optional_keys :: "string list" where
  "optional_keys = map fst input_guards"

section \<open>The handler and its collaborators\<close>

text \<open>
  A thrown value, as the catch clause sees it. The clause builds its text with
  \<^verbatim>\<open>error instanceof Error ? error.message : String(error)\<close> inside a template
  literal, outside any \<^verbatim>\<open>try\<close>:
  \<^item> \<open>ErrorValue m\<close> is an instance of \<^verbatim>\<open>Error\<close> whose message converts to the
    string \<open>m\<close>;
  \<^item> \<open>OtherValue s\<close> is any other value that \<^verbatim>\<open>String\<close> converts to \<open>s\<close>;
  \<^item> \<open>Unrenderable\<close> is a value for which this conversion itself throws a TypeError:
    a value that is not an \<^verbatim>\<open>Error\<close> and has no usable \<^verbatim>\<open>toString\<close>, such as
    \<^verbatim>\<open>Object.create(null)\<close>, or an \<^verbatim>\<open>Error\<close> whose message is such a value.
\<close>

datatype thrown = ErrorValue jsstring | OtherValue jsstring | Unrenderable

text \<open>The TypeError of a failed conversion to a string; the message is the engine's.\<close>

definition conversion_TypeError :: thrown where
  "conversion_TypeError = ErrorValue (asc ''Cannot convert object to primitive value'')"

definition error_text :: "thrown \<Rightarrow> thrown + jsstring" where
  "error_text error =
     (case error of
        ErrorValue message \<Rightarrow> Inr message
      | OtherValue s \<Rightarrow> Inr s
      | Unrenderable \<Rightarrow> Inl conversion_TypeError)"

record 't transcription =
  detected_language :: "jsstring option"
  segments :: "'t segment list option"

datatype artifact = TranscriptJson | TranscriptTxt | SentencesJson

text \<open>
  What the collaborators answer in one invocation. \<open>Inl\<close> is a call that throws (or
  a promise that rejects). The storage calls resolve to a \<^verbatim>\<open>{data, error}\<close> pair, the
  error being absent or carrying a message; \<open>listBuckets\<close> yields the bucket names.
  \<open>replicate_run\<close> receives the parameter bag and may resolve to a falsy output
  (\<open>None\<close>). \<open>clock_time t\<close> is
  \<^verbatim>\<open>new Date(t * 1000).toISOString().substring(11, 23)\<close>, which throws a RangeError
  on an invalid time value.
\<close>

record 't collaborators =
  listBuckets :: "thrown + (jsstring list option \<times> jsstring option)"
  createBucket :: "thrown + jsstring option"
  readFileSync :: "thrown + unit"
  upload :: "thrown + jsstring option"
  getPublicUrl :: "thrown + jsstring"
  replicate_run :: "(string \<rightharpoonup> jsval) \<Rightarrow> thrown + 't transcription option"
  mkdirSync :: "thrown + unit"
  writeFileSync :: "artifact \<Rightarrow> thrown + unit"
  clock_time :: "'t \<Rightarrow> thrown + jsstring"

definition and_then :: "'e + 'a \<Rightarrow> ('a \<Rightarrow> 'e + 'b) \<Rightarrow> 'e + 'b" where
  "and_then m f = (case m of Inl e \<Rightarrow> Inl e | Inr x \<Rightarrow> f x)"

text \<open>Lines 119 to 143: list the buckets and create the bucket \<open>audio\<close> if it is missing.\<close>

definition audioBucketExists :: "jsstring list option \<Rightarrow> bool" where
  "audioBucketExists buckets =
     (case buckets of None \<Rightarrow> False | Some bs \<Rightarrow> list_ex (\<lambda>name. name = asc ''audio'') bs)"

definition ensure_bucket :: "'t collaborators \<Rightarrow> thrown + unit" where
  "ensure_bucket env =
     and_then (listBuckets env) (\<lambda>(buckets, bucketsError).
       case bucketsError of
         Some message \<Rightarrow> Inl (ErrorValue (asc ''Failed to list buckets: '' @ message))
       | None \<Rightarrow>
           if \<not> audioBucketExists buckets then
             and_then (createBucket env) (\<lambda>createBucketError.
               case createBucketError of
                 Some message \<Rightarrow>
                   Inl (ErrorValue (asc ''Failed to create audio bucket: '' @ message))
               | None \<Rightarrow> Inr ())
           else Inr ())"

text \<open>Lines 146 to 170: read the file, upload it, get its public URL.\<close>

definition upload_file :: "'t collaborators \<Rightarrow> thrown + jsstring" where
  "upload_file env =
     and_then (readFileSync env) (\<lambda>fileBuffer.
     and_then (upload env) (\<lambda>uploadError.
       case uploadError of
         Some message \<Rightarrow>
           Inl (ErrorValue (asc ''Failed to upload file to Supabase: '' @ message))
       | None \<Rightarrow> getPublicUrl env))"

text \<open>Lines 172 to 209: build the parameter bag, run the model, reject a falsy output.\<close>

definition transcribe :: "'t collaborators \<Rightarrow> handler_args \<Rightarrow> jsstring \<Rightarrow> thrown + 't transcription" where
  "transcribe env a publicUrl =
     and_then (replicate_run env (build_input publicUrl a)) (\<lambda>output.
       case output of
         None \<Rightarrow> Inl (ErrorValue (asc ''No output received from Replicate API''))
       | Some out \<Rightarrow> Inr out)"

text \<open>
  Lines 241 to 255: the lines of the readable transcript (its header of three lines
  is left out).
\<close>

fun text_content :: "('t \<Rightarrow> thrown + jsstring) \<Rightarrow> 't segment list \<Rightarrow> thrown + jsstring" where
  "text_content clock [] = Inr []"
| "text_content clock (segm # rest) =
     and_then (clock (seg_start segm)) (\<lambda>startTime.
     and_then (clock (seg_end segm)) (\<lambda>endTime.
     and_then (text_content clock rest) (\<lambda>more.
       Inr (asc ''['' @ startTime @ asc '' - '' @ endTime @ asc '']: '' @
            trim (seg_text segm) @ [0x0A, 0x0A] @ more))))"

record 't summary =
  segmentCount :: nat
  sentenceCount :: nat
  total_duration :: 't

text \<open>
  Lines 211 to 332: write the three artifacts and build the summary. A TypeError of the
  grouping block would be thrown as an \<^verbatim>\<open>Error\<close>; its message is the engine's.
\<close>

definition persist :: "('t::{minus,zero}) collaborators \<Rightarrow> 't transcription \<Rightarrow> thrown + 't summary" where
  "persist env out =
     and_then (mkdirSync env) (\<lambda>_.
     and_then (writeFileSync env TranscriptJson) (\<lambda>_.
     and_then (text_content (clock_time env) (case segments out of None \<Rightarrow> [] | Some segs \<Rightarrow> segs)) (\<lambda>textContent.
     and_then (writeFileSync env TranscriptTxt) (\<lambda>_.
     and_then (case sentence_grouping (segments out) of
                 Inl TypeError \<Rightarrow> Inl (ErrorValue (asc ''TypeError''))
               | Inr ts \<Rightarrow> Inr ts) (\<lambda>sentenceTimestamps.
     and_then (writeFileSync env SentencesJson) (\<lambda>_.
       Inr \<lparr>segmentCount = (case segments out of None \<Rightarrow> 0 | Some segs \<Rightarrow> length segs),
            sentenceCount = length sentenceTimestamps,
            total_duration =
              (case segments out of
                 None \<Rightarrow> 0
               | Some segs \<Rightarrow> if length segs > 0 then seg_end (segs ! (length segs - 1)) else 0)\<rparr>))))))"

definition handler_body :: "('t::{minus,zero}) collaborators \<Rightarrow> handler_args \<Rightarrow> thrown + 't summary" where
  "handler_body env a =
     and_then (ensure_bucket env) (\<lambda>_.
     and_then (upload_file env) (\<lambda>publicUrl.
     and_then (transcribe env a publicUrl) (\<lambda>out.
       persist env out)))"

text \<open>
  The handler: the body inside \<^verbatim>\<open>try\<close>, and the \<^verbatim>\<open>catch\<close> clause that returns the
  error text. \<open>Inl\<close> is a fault that leaves the handler: the promise it returns
  rejects. The catch clause has no handler of its own, so a conversion that throws
  there is such a fault.
\<close>

datatype 't response = Completed "'t summary" | ErrorMessage jsstring

definition handler :: "('t::{minus,zero}) collaborators \<Rightarrow> handler_args \<Rightarrow> thrown + 't response" where
  "handler env a =
     (case handler_body env a of
        Inr s \<Rightarrow> Inr (Completed s)
      | Inl error \<Rightarrow>
          and_then (error_text error) (\<lambda>rendered.
            Inr (ErrorMessage (asc ''Error transcribing audio: '' @ rendered))))"

section \<open>The pattern test\<close>

lemma isTerminal_not_ws: "isTerminal c \<Longrightarrow> \<not> isWhiteSpace c"
  by (auto simp: isTerminal_def isWhiteSpace_def)

lemma punctuation_test_iff:
  "punctuation_test t \<longleftrightarrow> (\<exists>i<length t. isTerminal (t ! i) \<and> (\<forall>c\<in>set (drop (Suc i) t). isWhiteSpace c))"
  by (auto simp: punctuation_test_def list_ex_iff list_all_iff)

lemma punctuation_test_spec: "punctuation_test t = spec_ends_terminal t"
proof
  assume "punctuation_test t"
  then obtain i where i: "i < length t" "isTerminal (t ! i)"
    and ws: "\<forall>c\<in>set (drop (Suc i) t). isWhiteSpace c"
    unfolding punctuation_test_iff by blast
  have "t = take i t @ t ! i # drop (Suc i) t"
    using i(1) by (simp add: id_take_nth_drop)
  then have "rev t = rev (drop (Suc i) t) @ t ! i # rev (take i t)"
    by (metis rev.simps(2) rev_append append_Cons append_Nil append_assoc)
  moreover have "dropWhile isWhiteSpace (rev (drop (Suc i) t) @ t ! i # rev (take i t))
      = dropWhile isWhiteSpace (t ! i # rev (take i t))"
    by (rule dropWhile_append2) (use ws in simp)
  ultimately have "dropWhile isWhiteSpace (rev t) = t ! i # rev (take i t)"
    using isTerminal_not_ws [OF i(2)] by simp
  then show "spec_ends_terminal t"
    using i(2) by (simp add: spec_ends_terminal_def)
next
  assume "spec_ends_terminal t"
  then obtain c r where d: "dropWhile isWhiteSpace (rev t) = c # r" and c: "isTerminal c"
    by (auto simp: spec_ends_terminal_def split: list.splits)
  have "rev t = takeWhile isWhiteSpace (rev t) @ c # r"
    using d by (metis takeWhile_dropWhile_id)
  then have t: "t = rev r @ c # rev (takeWhile isWhiteSpace (rev t))"
    by (metis rev_rev_ident rev_append rev.simps(2) append_Cons append_Nil append_assoc)
  define w where "w = rev (takeWhile isWhiteSpace (rev t))"
  have w: "\<forall>x\<in>set w. isWhiteSpace x"
    unfolding w_def using set_takeWhileD by fastforce
  have t': "t = rev r @ c # w" using t w_def by simp
  have "length r < length t" by (subst t') simp
  moreover have "t ! length r = c" by (subst t') (simp add: nth_append)
  moreover have "drop (Suc (length r)) t = w" by (subst t') simp
  ultimately show "punctuation_test t"
    unfolding punctuation_test_iff using c w by (intro exI [of _ "length r"]) simp
qed

section \<open>The loop computes the fold\<close>

declare for_loop.simps [simp del]

lemma for_loop_done: "length segs \<le> i \<Longrightarrow> for_loop segs i st = Inr st"
  by (subst for_loop.simps) simp

lemma for_loop_step:
  "i < length segs \<Longrightarrow> loop_body segs i st = Inr st' \<Longrightarrow>
   for_loop segs i st = for_loop segs (Suc i) st'"
  by (subst for_loop.simps) simp

lemma loop_body_close_more:
  assumes "Suc i < length segs" "spec_ends_terminal (trim (seg_text (segs ! i)))"
  shows "\<exists>st1. loop_body segs i st = Inr st1 \<and> currentSentence st1 = [] \<and>
     sentenceStart st1 = seg_start (segs ! Suc i) \<and>
     sentenceTimestamps st1 = sentenceTimestamps st @
            [\<lparr>sentence = trim (currentSentence st @ seg_text (segs ! i)),
              start_time = sentenceStart st, end_time = seg_end (segs ! i),
              duration = seg_end (segs ! i) - sentenceStart st\<rparr>]"
  using assms by (simp add: loop_body_def segment_at_def punctuation_test_spec Let_def)

lemma loop_body_close_last:
  assumes "Suc i = length segs"
  shows "\<exists>st1. loop_body segs i st = Inr st1 \<and>
     sentenceTimestamps st1 = sentenceTimestamps st @
            [\<lparr>sentence = trim (currentSentence st @ seg_text (segs ! i)),
              start_time = sentenceStart st, end_time = seg_end (segs ! i),
              duration = seg_end (segs ! i) - sentenceStart st\<rparr>]"
proof -
  have "i < length segs" "\<not> Suc i < length segs" using assms by simp_all
  then show ?thesis
    using assms by (simp add: loop_body_def segment_at_def Let_def)
qed

lemma loop_body_continue:
  assumes "Suc i < length segs" "\<not> spec_ends_terminal (trim (seg_text (segs ! i)))"
  shows "\<exists>st1. loop_body segs i st = Inr st1 \<and>
     currentSentence st1 = currentSentence st @ seg_text (segs ! i) \<and>
     sentenceStart st1 = sentenceStart st \<and>
     sentenceTimestamps st1 = sentenceTimestamps st"
  using assms by (simp add: loop_body_def segment_at_def punctuation_test_spec Let_def)

lemma for_loop_spec_fold:
  "i \<le> length segs \<Longrightarrow>
   \<exists>st'. for_loop segs i st = Inr st' \<and>
         sentenceTimestamps st' =
           sentenceTimestamps st @ spec_fold (currentSentence st) (sentenceStart st) (drop i segs)"
proof (induction "length segs - i" arbitrary: i st)
  case 0
  then show ?case by (simp add: for_loop_done)
next
  case (Suc n)
  then have lt: "i < length segs" by simp
  have dr: "drop i segs = segs ! i # drop (Suc i) segs"
    using lt by (simp add: Cons_nth_drop_Suc)
  have n: "n = length segs - Suc i" using Suc.hyps(2) by simp
  show ?case
  proof (cases "Suc i < length segs")
    case more: True
    have dr2: "drop (Suc i) segs = segs ! Suc i # drop (Suc (Suc i)) segs"
      using more by (simp add: Cons_nth_drop_Suc)
    show ?thesis
    proof (cases "spec_ends_terminal (trim (seg_text (segs ! i)))")
      case True
      obtain st1 where body: "loop_body segs i st = Inr st1"
        and st1: "currentSentence st1 = []" "sentenceStart st1 = seg_start (segs ! Suc i)"
          "sentenceTimestamps st1 = sentenceTimestamps st @
            [\<lparr>sentence = trim (currentSentence st @ seg_text (segs ! i)),
              start_time = sentenceStart st, end_time = seg_end (segs ! i),
              duration = seg_end (segs ! i) - sentenceStart st\<rparr>]"
        using loop_body_close_more [OF more True, of st] by blast
      from Suc.hyps(1) [OF n, of st1] more
      obtain st' where "for_loop segs (Suc i) st1 = Inr st'"
        and "sentenceTimestamps st' = sentenceTimestamps st1 @
           spec_fold (currentSentence st1) (sentenceStart st1) (drop (Suc i) segs)"
        by auto
      then show ?thesis
        using True more st1
        by (simp add: for_loop_step [OF lt body] dr dr2)
    next
      case False
      obtain st1 where body: "loop_body segs i st = Inr st1"
        and st1: "currentSentence st1 = currentSentence st @ seg_text (segs ! i)"
          "sentenceStart st1 = sentenceStart st"
          "sentenceTimestamps st1 = sentenceTimestamps st"
        using loop_body_continue [OF more False, of st] by blast
      from Suc.hyps(1) [OF n, of st1] more
      obtain st' where "for_loop segs (Suc i) st1 = Inr st'"
        and "sentenceTimestamps st' = sentenceTimestamps st1 @
           spec_fold (currentSentence st1) (sentenceStart st1) (drop (Suc i) segs)"
        by auto
      then show ?thesis
        using False more st1
        by (simp add: for_loop_step [OF lt body] dr dr2)
    qed
  next
    case False
    then have last: "Suc i = length segs" using lt by simp
    obtain st1 where body: "loop_body segs i st = Inr st1"
      and st1: "sentenceTimestamps st1 = sentenceTimestamps st @
            [\<lparr>sentence = trim (currentSentence st @ seg_text (segs ! i)),
              start_time = sentenceStart st, end_time = seg_end (segs ! i),
              duration = seg_end (segs ! i) - sentenceStart st\<rparr>]"
      using loop_body_close_last [OF last, of st] by blast
    show ?thesis
      using last st1 by (simp add: for_loop_step [OF lt body] for_loop_done dr)
  qed
qed

section \<open>Runs of segments\<close>

lemma runs_Nil_iff: "runs segs = [] \<longleftrightarrow> segs = []"
  by (cases segs) (auto split: list.splits)

lemma runs_nonempty: "r \<in> set (runs segs) \<Longrightarrow> r \<noteq> []"
  by (induction segs arbitrary: r) (auto split: if_splits list.splits)

lemma concat_runs: "concat (runs segs) = segs"
  by (induction segs) (auto split: list.splits simp: runs_Nil_iff)

lemma hd_hd_runs: "segs \<noteq> [] \<Longrightarrow> hd (hd (runs segs)) = hd segs"
  by (cases segs) (auto split: list.splits)

lemma last_last_runs: "segs \<noteq> [] \<Longrightarrow> last (last (runs segs)) = last segs"
proof (induction segs)
  case Nil
  then show ?case by simp
next
  case (Cons s rest)
  show ?case
  proof (cases "rest = []")
    case True
    then show ?thesis by simp
  next
    case False
    then obtain r rs where rr: "runs rest = r # rs"
      by (cases "runs rest") (auto simp: runs_Nil_iff)
    have "r \<noteq> []" using runs_nonempty [of r rest] rr by simp
    then show ?thesis
      using False rr Cons.IH by (auto split: if_splits)
  qed
qed

lemma length_runs_le: "length (runs segs) \<le> length segs"
  by (induction segs) (auto split: list.splits)

lemma runs_obtain:
  assumes "segs \<noteq> []"
  obtains r rs where "runs segs = r # rs" "r \<noteq> []" "hd r = hd segs"
proof -
  have "runs segs \<noteq> []" using assms runs_Nil_iff by blast
  then obtain r rs where rr: "runs segs = r # rs" by (meson neq_Nil_conv)
  have "r \<in> set (runs segs)" by (simp only: rr list.set_intros(1))
  then have "r \<noteq> []" by (rule runs_nonempty)
  moreover have "hd r = hd segs" using hd_hd_runs [OF assms] by (simp only: rr list.sel)
  ultimately show thesis using rr that by blast
qed

lemma spec_fold_runs:
  "spec_fold acc st segs =
     (case runs segs of
        [] \<Rightarrow> []
      | r # rs \<Rightarrow>
          \<lparr>sentence = trim (acc @ concat (map seg_text r)), start_time = st,
           end_time = seg_end (last r), duration = seg_end (last r) - st\<rparr> #
          map sentence_of_run rs)"
proof (induction segs arbitrary: acc st)
  case Nil
  then show ?case by simp
next
  case (Cons s rest)
  show ?case
  proof (cases "rest = []")
    case True
    then show ?thesis by simp
  next
    case ne: False
    obtain r rs where rr: "runs rest = r # rs" and r: "r \<noteq> []" and hdr: "hd r = hd rest"
      using runs_obtain [OF ne] by blast
    show ?thesis
    proof (cases "closes s")
      case True
      have "spec_fold acc st (s # rest) =
         \<lparr>sentence = trim (acc @ seg_text s), start_time = st,
          end_time = seg_end s, duration = seg_end s - st\<rparr> #
         spec_fold [] (seg_start (hd rest)) rest"
        using True ne by (cases rest) (simp_all add: closes_def punctuation_test_spec)
      moreover have "spec_fold [] (seg_start (hd rest)) rest = map sentence_of_run (runs rest)"
        unfolding Cons.IH rr using hdr by (simp add: sentence_of_run_def)
      moreover have "runs (s # rest) = [s] # runs rest"
        using True by simp
      ultimately show ?thesis by simp
    next
      case False
      have "spec_fold acc st (s # rest) = spec_fold (acc @ seg_text s) st rest"
        using False ne by (simp add: closes_def punctuation_test_spec)
      moreover have "runs (s # rest) = (s # r) # rs"
        using False ne rr by simp
      ultimately show ?thesis
        unfolding Cons.IH rr using r by simp
    qed
  qed
qed

lemma spec_aggregate_runs: "spec_aggregate segs = map sentence_of_run (runs segs)"
proof (cases "segs = []")
  case True
  then show ?thesis by (simp add: spec_aggregate_def)
next
  case False
  obtain r rs where rr: "runs segs = r # rs" and hdr: "hd r = hd segs"
    using runs_obtain [OF False] by blast
  have "spec_aggregate segs = spec_fold [] (seg_start (hd segs)) segs"
    using False by (cases segs) (simp_all add: spec_aggregate_def)
  then show ?thesis
    unfolding spec_fold_runs rr using hdr by (simp add: sentence_of_run_def)
qed

lemma grouping_nonempty:
  assumes "segs \<noteq> []"
  shows "sentence_grouping (Some segs) = Inr (spec_fold [] (seg_start (hd segs)) segs)"
proof -
  define st0 where "st0 = \<lparr>currentSentence = [], sentenceStart = seg_start (hd segs),
                          sentenceTimestamps = ([] :: 'a sentence_ts list)\<rparr>"
  obtain st' where "for_loop segs 0 st0 = Inr st'"
    and "sentenceTimestamps st' = spec_fold [] (seg_start (hd segs)) segs"
    using for_loop_spec_fold [of 0 segs st0] by (auto simp: st0_def)
  then show ?thesis
    using assms by (simp add: sentence_grouping_def segment_at_def st0_def hd_conv_nth)
qed

lemma grouping_runs: "sentence_grouping (Some segs) = Inr (map sentence_of_run (runs segs))"
proof (cases "segs = []")
  case True
  then show ?thesis by (simp add: sentence_grouping_def)
next
  case False
  have "spec_aggregate segs = spec_fold [] (seg_start (hd segs)) segs"
    using False by (cases segs) (simp_all add: spec_aggregate_def)
  then show ?thesis
    using grouping_nonempty [OF False] spec_aggregate_runs [of segs] by simp
qed

text \<open>
  Claim C1. On every sequence of segments the grouping block returns what the
  specification's algorithm returns: a sentence is closed exactly after each segment whose
  trimmed text ends with a terminal mark (optionally followed by white space) and after
  the final segment; the sentence holds the trimmed accumulator, the current sentence
  start, the segment's end and their difference; when segments remain, the accumulator
  restarts empty and the start becomes the start of the following segment.
\<close>

theorem aggregator_refines_spec: "sentence_grouping (Some segs) = Inr (spec_aggregate segs)"
proof (cases "segs = []")
  case True
  then show ?thesis by (simp add: sentence_grouping_def spec_aggregate_def)
next
  case False
  have "spec_aggregate segs = spec_fold [] (seg_start (hd segs)) segs"
    using False by (cases segs) (simp_all add: spec_aggregate_def)
  then show ?thesis
    using grouping_nonempty [OF False] by simp
qed

theorem aggregator_refines_spec_witness:
  "sentence_grouping (Some
     [\<lparr>seg_start = 0::real, seg_end = 1, seg_text = asc ''Hello''\<rparr>,
      \<lparr>seg_start = 1, seg_end = 2, seg_text = asc '' world.''\<rparr>]) =
   Inr [\<lparr>sentence = asc ''Hello world.'', start_time = 0, end_time = 2, duration = 2\<rparr>]"
  using aggregator_refines_spec [of
     "[\<lparr>seg_start = 0::real, seg_end = 1, seg_text = asc ''Hello''\<rparr>,
      \<lparr>seg_start = 1, seg_end = 2, seg_text = asc '' world.''\<rparr>]"]
  by (simp add: spec_aggregate_def spec_ends_terminal_def trim_def isWhiteSpace_def
      isTerminal_def asc_def)

section \<open>Properties of the aggregator\<close>

lemma trim_decomp:
  "\<exists>l r. list_all isWhiteSpace l \<and> list_all isWhiteSpace r \<and> s = l @ trim s @ r"
proof -
  define l where "l = takeWhile isWhiteSpace s"
  define m where "m = dropWhile isWhiteSpace s"
  define r where "r = rev (takeWhile isWhiteSpace (rev m))"
  have "m = rev (dropWhile isWhiteSpace (rev m)) @ rev (takeWhile isWhiteSpace (rev m))"
    by (metis rev_append rev_rev_ident takeWhile_dropWhile_id)
  then have "m = trim s @ r"
    unfolding trim_def r_def m_def .
  moreover have "s = l @ m" by (simp add: l_def m_def)
  moreover have "list_all isWhiteSpace l"
    unfolding l_def list_all_iff using set_takeWhileD by fastforce
  moreover have "list_all isWhiteSpace r"
    unfolding r_def list_all_iff using set_takeWhileD by fastforce
  ultimately show ?thesis by blast
qed

lemma filter_ws_Nil: "list_all isWhiteSpace l \<Longrightarrow> filter (\<lambda>c. \<not> isWhiteSpace c) l = []"
  by (induction l) auto

lemma filter_trim: "filter (\<lambda>c. \<not> isWhiteSpace c) (trim s) = filter (\<lambda>c. \<not> isWhiteSpace c) s"
proof -
  obtain l r where l: "list_all isWhiteSpace l" and r: "list_all isWhiteSpace r"
    and s: "s = l @ trim s @ r"
    using trim_decomp by blast
  have a: "filter (\<lambda>c. \<not> isWhiteSpace c) (l @ trim s @ r) = filter (\<lambda>c. \<not> isWhiteSpace c) (trim s)"
    using l r by (simp add: filter_ws_Nil)
  have b: "filter (\<lambda>c. \<not> isWhiteSpace c) s = filter (\<lambda>c. \<not> isWhiteSpace c) (l @ trim s @ r)"
    by (rule arg_cong [OF s])
  from b a have "filter (\<lambda>c. \<not> isWhiteSpace c) s = filter (\<lambda>c. \<not> isWhiteSpace c) (trim s)"
    by (rule trans)
  then show ?thesis by (rule sym)
qed

lemma filter_concat_trim:
  "filter (\<lambda>c. \<not> isWhiteSpace c) (concat (map trim xs)) = filter (\<lambda>c. \<not> isWhiteSpace c) (concat xs)"
  by (induction xs) (simp_all add: filter_trim)

lemma trim_Nil_iff: "trim t = [] \<longleftrightarrow> (\<forall>c\<in>set t. isWhiteSpace c)"
proof
  assume "trim t = []"
  then obtain l r where "list_all isWhiteSpace l" "list_all isWhiteSpace r" "t = l @ r"
    using trim_decomp [of t] by auto
  then show "\<forall>c\<in>set t. isWhiteSpace c" by (auto simp: list_all_iff)
next
  assume "\<forall>c\<in>set t. isWhiteSpace c"
  then have d: "dropWhile isWhiteSpace t = []" by (simp add: dropWhile_eq_Nil_conv)
  show "trim t = []" unfolding trim_def d by simp
qed

lemma not_punctuation_Nil: "\<not> punctuation_test []"
  by (simp add: punctuation_test_def)

lemma accs_runs: "concat (map (\<lambda>r. concat (map seg_text r)) (runs segs)) = concat (map seg_text segs)"
proof -
  have "concat (map (\<lambda>r. concat (map seg_text r)) rs) = concat (map seg_text (concat rs))" for rs :: "'a segment list list"
    by (induction rs) simp_all
  then show ?thesis by (simp add: concat_runs)
qed

lemma sentence_of_run_text: "sentence (sentence_of_run r) = trim (concat (map seg_text r))"
  by (simp add: sentence_of_run_def)

text \<open>
  Claim C2. The sentence texts, concatenated in order, are the segment texts concatenated
  in order once white space is left out of both; and the whole text splits into
  accumulators, one for each sentence, such that the sentence is the trimmed accumulator
  and the accumulator is the sentence between a prefix and a suffix of white space only:
  the trim removes nothing from the interior.
\<close>

theorem sentences_preserve_text:
  "\<exists>out. sentence_grouping (Some segs) = Inr out \<and>
     filter (\<lambda>c. \<not> isWhiteSpace c) (concat (map sentence out)) =
       filter (\<lambda>c. \<not> isWhiteSpace c) (concat (map seg_text segs)) \<and>
     (\<exists>accs. concat accs = concat (map seg_text segs) \<and>
        list_all2 (\<lambda>acc s. sentence s = trim acc \<and>
            (\<exists>l r. list_all isWhiteSpace l \<and> list_all isWhiteSpace r \<and> acc = l @ sentence s @ r))
          accs out)"
proof -
  define accs where "accs = map (\<lambda>r. concat (map seg_text r)) (runs segs)"
  define out where "out = map sentence_of_run (runs segs)"
  have texts: "map sentence out = map trim accs"
    by (simp add: out_def accs_def sentence_of_run_text)
  have whole: "concat accs = concat (map seg_text segs)"
    by (simp add: accs_def accs_runs)
  have "filter (\<lambda>c. \<not> isWhiteSpace c) (concat (map sentence out)) =
      filter (\<lambda>c. \<not> isWhiteSpace c) (concat (map seg_text segs))"
    by (simp only: texts filter_concat_trim whole)
  moreover have "list_all2 (\<lambda>acc s. sentence s = trim acc \<and>
            (\<exists>l r. list_all isWhiteSpace l \<and> list_all isWhiteSpace r \<and> acc = l @ sentence s @ r))
          accs out"
    unfolding list_all2_conv_all_nth
  proof (intro conjI allI impI)
    show "length accs = length out" by (simp add: accs_def out_def)
  next
    fix i assume "i < length accs"
    then show "sentence (out ! i) = trim (accs ! i)"
      by (simp add: accs_def out_def sentence_of_run_text)
    then show "\<exists>l r. list_all isWhiteSpace l \<and> list_all isWhiteSpace r \<and>
        accs ! i = l @ sentence (out ! i) @ r"
      using trim_decomp [of "accs ! i"] by simp
  qed
  ultimately show ?thesis
    using whole grouping_runs [of segs] unfolding out_def by blast
qed

theorem sentences_preserve_text_witness:
  "\<exists>out. sentence_grouping (Some
     [\<lparr>seg_start = 0::real, seg_end = 1, seg_text = asc ''Hello''\<rparr>,
      \<lparr>seg_start = 1, seg_end = 2, seg_text = asc '' world.''\<rparr>]) = Inr out \<and>
     filter (\<lambda>c. \<not> isWhiteSpace c) (concat (map sentence out)) = asc ''Helloworld.''"
  using sentences_preserve_text [of
     "[\<lparr>seg_start = 0::real, seg_end = 1, seg_text = asc ''Hello''\<rparr>,
      \<lparr>seg_start = 1, seg_end = 2, seg_text = asc '' world.''\<rparr>]"]
  by (auto simp add: isWhiteSpace_def asc_def)

text \<open>
  Claim C3. On a non-empty sequence of segments the output is non-empty and the end time
  of the last sentence is the end of the last segment.
\<close>

theorem nonempty_flush:
  "segs \<noteq> [] \<Longrightarrow>
   \<exists>out. sentence_grouping (Some segs) = Inr out \<and> out \<noteq> [] \<and>
     end_time (last out) = seg_end (last segs)"
proof -
  assume ne: "segs \<noteq> []"
  have rne: "runs segs \<noteq> []" using ne runs_Nil_iff by blast
  have "end_time (last (map sentence_of_run (runs segs))) = seg_end (last (last (runs segs)))"
    using rne by (simp add: last_map sentence_of_run_def)
  then show ?thesis
    using rne last_last_runs [OF ne] grouping_runs [of segs] by simp
qed

theorem nonempty_flush_witness:
  "[\<lparr>seg_start = 0::real, seg_end = 1, seg_text = asc ''One.''\<rparr>,
      \<lparr>seg_start = 1, seg_end = 2, seg_text = asc ''Two''\<rparr>,
      \<lparr>seg_start = 2, seg_end = 3, seg_text = asc '' three''\<rparr>] \<noteq> [] \<and>
   (\<exists>out. sentence_grouping (Some
     [\<lparr>seg_start = 0::real, seg_end = 1, seg_text = asc ''One.''\<rparr>,
      \<lparr>seg_start = 1, seg_end = 2, seg_text = asc ''Two''\<rparr>,
      \<lparr>seg_start = 2, seg_end = 3, seg_text = asc '' three''\<rparr>]) = Inr out \<and> out \<noteq> [] \<and> end_time (last out) = 3)"
  using nonempty_flush [of
     "[\<lparr>seg_start = 0::real, seg_end = 1, seg_text = asc ''One.''\<rparr>,
      \<lparr>seg_start = 1, seg_end = 2, seg_text = asc ''Two''\<rparr>,
      \<lparr>seg_start = 2, seg_end = 3, seg_text = asc '' three''\<rparr>]"]
  by simp

text \<open>
  Claim C5. There are at most as many sentences as segments, and at least one sentence
  when there is at least one segment.
\<close>

theorem sentence_count_bounds:
  "\<exists>out. sentence_grouping (Some segs) = Inr out \<and> length out \<le> length segs \<and>
     (segs \<noteq> [] \<longrightarrow> 1 \<le> length out)"
proof -
  have "segs \<noteq> [] \<longrightarrow> 1 \<le> length (runs segs)"
    using runs_Nil_iff [of segs] by (cases "runs segs") auto
  then show ?thesis
    using length_runs_le [of segs] grouping_runs [of segs] by simp
qed

theorem sentence_count_bounds_witness:
  "[\<lparr>seg_start = 0::real, seg_end = 1, seg_text = asc ''One.''\<rparr>,
      \<lparr>seg_start = 1, seg_end = 2, seg_text = asc ''Two''\<rparr>,
      \<lparr>seg_start = 2, seg_end = 3, seg_text = asc '' three''\<rparr>] \<noteq> [] \<and>
   (\<exists>out. sentence_grouping (Some
     [\<lparr>seg_start = 0::real, seg_end = 1, seg_text = asc ''One.''\<rparr>,
      \<lparr>seg_start = 1, seg_end = 2, seg_text = asc ''Two''\<rparr>,
      \<lparr>seg_start = 2, seg_end = 3, seg_text = asc '' three''\<rparr>]) = Inr out \<and> length out \<le> 3 \<and> 1 \<le> length out)"
  using sentence_count_bounds [of
     "[\<lparr>seg_start = 0::real, seg_end = 1, seg_text = asc ''One.''\<rparr>,
      \<lparr>seg_start = 1, seg_end = 2, seg_text = asc ''Two''\<rparr>,
      \<lparr>seg_start = 2, seg_end = 3, seg_text = asc '' three''\<rparr>]"]
  by (simp add: eval_nat_numeral)

text \<open>
  Claim C6. The output is empty if and only if the input is empty. The empty sequence
  (and an absent one) gives the empty output and no error: the start of a first segment
  is not read, which would be the TypeError of \<open>segment_at\<close>.
\<close>

theorem empty_iff_empty:
  "sentence_grouping (Some ([] :: ('t::minus) segment list)) = Inr [] \<and>
   sentence_grouping (None :: ('t::minus) segment list option) = Inr [] \<and>
   (\<exists>out. sentence_grouping (Some (segs :: 't segment list)) = Inr out \<and> (out = [] \<longleftrightarrow> segs = []))"
  using grouping_runs [of segs] runs_Nil_iff [of segs]
  by (simp add: sentence_grouping_def)

theorem empty_iff_empty_witness:
  "\<exists>out. sentence_grouping (Some
     [\<lparr>seg_start = 0::real, seg_end = 1, seg_text = asc ''Hello''\<rparr>,
      \<lparr>seg_start = 1, seg_end = 2, seg_text = asc '' world.''\<rparr>]) = Inr out \<and> out \<noteq> []"
  using empty_iff_empty [of
     "[\<lparr>seg_start = 0::real, seg_end = 1, seg_text = asc ''Hello''\<rparr>,
      \<lparr>seg_start = 1, seg_end = 2, seg_text = asc '' world.''\<rparr>]"]
  by simp

text \<open>
  Claim C7. On a non-empty sequence of segments the start time of the first sentence is
  the start of the first segment.
\<close>

theorem first_start_time:
  "segs \<noteq> [] \<Longrightarrow>
   \<exists>out. sentence_grouping (Some segs) = Inr out \<and> out \<noteq> [] \<and>
     start_time (hd out) = seg_start (hd segs)"
proof -
  assume ne: "segs \<noteq> []"
  obtain r rs where "runs segs = r # rs" "hd r = hd segs"
    using runs_obtain [OF ne] by blast
  then show ?thesis
    using grouping_runs [of segs] by (simp add: sentence_of_run_def)
qed

theorem first_start_time_witness:
  "[\<lparr>seg_start = 0::real, seg_end = 1, seg_text = asc ''One.''\<rparr>,
      \<lparr>seg_start = 1, seg_end = 2, seg_text = asc ''Two''\<rparr>,
      \<lparr>seg_start = 2, seg_end = 3, seg_text = asc '' three''\<rparr>] \<noteq> [] \<and>
   (\<exists>out. sentence_grouping (Some
     [\<lparr>seg_start = 0::real, seg_end = 1, seg_text = asc ''One.''\<rparr>,
      \<lparr>seg_start = 1, seg_end = 2, seg_text = asc ''Two''\<rparr>,
      \<lparr>seg_start = 2, seg_end = 3, seg_text = asc '' three''\<rparr>]) = Inr out \<and> out \<noteq> [] \<and> start_time (hd out) = 0)"
  using first_start_time [of
     "[\<lparr>seg_start = 0::real, seg_end = 1, seg_text = asc ''One.''\<rparr>,
      \<lparr>seg_start = 1, seg_end = 2, seg_text = asc ''Two''\<rparr>,
      \<lparr>seg_start = 2, seg_end = 3, seg_text = asc '' three''\<rparr>]"]
  by simp

lemma run_in_segs:
  assumes "r \<in> set (runs segs)"
  shows "\<exists>pre post. segs = pre @ r @ post"
proof -
  obtain xs ys where "runs segs = xs @ r # ys"
    using assms by (meson split_list)
  then have "concat (runs segs) = concat xs @ r @ concat ys" by simp
  then show ?thesis by (metis concat_runs)
qed

lemma runs_append:
  "xs \<noteq> [] \<Longrightarrow> closes (last xs) \<Longrightarrow> runs (xs @ ys) = runs xs @ runs ys"
proof (induction xs)
  case Nil
  then show ?case by simp
next
  case (Cons x rest)
  show ?case
  proof (cases "rest = []")
    case True
    then show ?thesis using Cons.prems by simp
  next
    case False
    then have IH: "runs (rest @ ys) = runs rest @ runs ys"
      using Cons by simp
    obtain r rs where rr: "runs rest = r # rs"
      using runs_obtain [OF False] by blast
    show ?thesis
      using False IH rr by simp
  qed
qed

lemma runs_single:
  "tail \<noteq> [] \<Longrightarrow> \<forall>s\<in>set tail. \<not> closes s \<Longrightarrow> runs tail = [tail]"
proof (induction tail)
  case Nil
  then show ?case by simp
next
  case (Cons s rest)
  then show ?case by (cases "rest = []") auto
qed

lemma blank_not_closes: "trim (seg_text s) = [] \<Longrightarrow> \<not> closes s"
  by (simp add: closes_def not_punctuation_Nil)

lemma trim_concat_blank:
  assumes "\<forall>s\<in>set tail. trim (seg_text s) = []"
  shows "trim (concat (map seg_text tail)) = []"
  using assms by (auto simp: trim_Nil_iff)

text \<open>
  Claim C9. Every emitted sentence has for duration its end time minus its start time,
  whatever the subtraction of the number type is; its start time is the start of the first
  segment and its end time the end of the last segment of a contiguous, non-empty run of
  the input, unchanged. Nothing is validated: a segment that ends before it starts gives
  a negative duration, and one that ends when it starts gives zero.
\<close>

theorem duration_is_difference:
  "(\<exists>out. sentence_grouping (Some segs) = Inr out \<and>
      list_all (\<lambda>s. duration s = end_time s - start_time s \<and>
          (\<exists>pre r post. segs = pre @ r @ post \<and> r \<noteq> [] \<and>
             start_time s = seg_start (hd r) \<and> end_time s = seg_end (last r))) out) \<and>
   sentence_grouping (Some [\<lparr>seg_start = 5::real, seg_end = 3, seg_text = asc ''Late.''\<rparr>]) =
     Inr [\<lparr>sentence = asc ''Late.'', start_time = 5, end_time = 3, duration = - 2\<rparr>] \<and>
   sentence_grouping (Some [\<lparr>seg_start = 4::real, seg_end = 4, seg_text = asc ''Now.''\<rparr>]) =
     Inr [\<lparr>sentence = asc ''Now.'', start_time = 4, end_time = 4, duration = 0\<rparr>]"
proof (intro conjI)
  have "list_all (\<lambda>s. duration s = end_time s - start_time s \<and>
          (\<exists>pre r post. segs = pre @ r @ post \<and> r \<noteq> [] \<and>
             start_time s = seg_start (hd r) \<and> end_time s = seg_end (last r)))
        (map sentence_of_run (runs segs))"
    unfolding list_all_iff
  proof
    fix s assume "s \<in> set (map sentence_of_run (runs segs))"
    then obtain r where r: "r \<in> set (runs segs)" and s: "s = sentence_of_run r" by auto
    obtain pre post where "segs = pre @ r @ post" using run_in_segs [OF r] by blast
    moreover have "r \<noteq> []" using runs_nonempty [OF r] .
    ultimately show "duration s = end_time s - start_time s \<and>
          (\<exists>pre r post. segs = pre @ r @ post \<and> r \<noteq> [] \<and>
             start_time s = seg_start (hd r) \<and> end_time s = seg_end (last r))"
      unfolding s by (auto simp: sentence_of_run_def)
  qed
  then show "\<exists>out. sentence_grouping (Some segs) = Inr out \<and>
      list_all (\<lambda>s. duration s = end_time s - start_time s \<and>
          (\<exists>pre r post. segs = pre @ r @ post \<and> r \<noteq> [] \<and>
             start_time s = seg_start (hd r) \<and> end_time s = seg_end (last r))) out"
    using grouping_runs [of segs] by simp
next
  show "sentence_grouping (Some [\<lparr>seg_start = 5::real, seg_end = 3, seg_text = asc ''Late.''\<rparr>]) =
     Inr [\<lparr>sentence = asc ''Late.'', start_time = 5, end_time = 3, duration = - 2\<rparr>]"
    by (simp add: sentence_grouping_def segment_at_def for_loop.simps loop_body_def
        punctuation_test_def trim_def isWhiteSpace_def isTerminal_def asc_def upt_rec Let_def)
next
  show "sentence_grouping (Some [\<lparr>seg_start = 4::real, seg_end = 4, seg_text = asc ''Now.''\<rparr>]) =
     Inr [\<lparr>sentence = asc ''Now.'', start_time = 4, end_time = 4, duration = 0\<rparr>]"
    by (simp add: sentence_grouping_def segment_at_def for_loop.simps loop_body_def
        punctuation_test_def trim_def isWhiteSpace_def isTerminal_def asc_def upt_rec Let_def)
qed

theorem duration_is_difference_witness:
  "\<exists>out. sentence_grouping (Some
     [\<lparr>seg_start = 0::real, seg_end = 1, seg_text = asc ''Hello''\<rparr>,
      \<lparr>seg_start = 1, seg_end = 2, seg_text = asc '' world.''\<rparr>]) = Inr out \<and>
     list_all (\<lambda>s. duration s = end_time s - start_time s) out"
  using duration_is_difference [of
     "[\<lparr>seg_start = 0::real, seg_end = 1, seg_text = asc ''Hello''\<rparr>,
      \<lparr>seg_start = 1, seg_end = 2, seg_text = asc '' world.''\<rparr>]"]
  by (auto simp: list_all_iff)

text \<open>
  Claim C10. When a segment closes a sentence and every following segment has a text
  that trims to the empty string, none of the following segments passes the pattern test,
  and the flush at the end of the sequence emits a last sentence with the empty text,
  from the start of the first to the end of the last of these trailing segments.
\<close>

theorem trailing_blank_sentence:
  assumes "closes c" and "tail \<noteq> []" and "\<forall>s\<in>set tail. trim (seg_text s) = []"
  shows "list_all (\<lambda>s. \<not> closes s) tail \<and>
     (\<exists>out. sentence_grouping (Some (pre @ c # tail)) = Inr out \<and> out \<noteq> [] \<and>
        last out = \<lparr>sentence = [], start_time = seg_start (hd tail),
                    end_time = seg_end (last tail),
                    duration = seg_end (last tail) - seg_start (hd tail)\<rparr>)"
proof -
  have nc: "\<forall>s\<in>set tail. \<not> closes s"
    using assms(3) blank_not_closes by blast
  have "runs ((pre @ [c]) @ tail) = runs (pre @ [c]) @ runs tail"
    by (rule runs_append) (use assms(1) in simp_all)
  then have "runs (pre @ c # tail) = runs (pre @ [c]) @ [tail]"
    using runs_single [OF assms(2) nc] by simp
  then have "map sentence_of_run (runs (pre @ c # tail)) \<noteq> [] \<and>
      last (map sentence_of_run (runs (pre @ c # tail))) = sentence_of_run tail"
    by simp
  moreover have "sentence_of_run tail =
      \<lparr>sentence = [], start_time = seg_start (hd tail), end_time = seg_end (last tail),
       duration = seg_end (last tail) - seg_start (hd tail)\<rparr>"
    using trim_concat_blank [OF assms(3)] by (simp add: sentence_of_run_def)
  ultimately show ?thesis
    using nc grouping_runs [of "pre @ c # tail"] by (simp add: list_all_iff)
qed

theorem trailing_blank_sentence_witness:
  "\<exists>out. sentence_grouping (Some
     [\<lparr>seg_start = 0::real, seg_end = 1, seg_text = asc ''Hi.''\<rparr>,
      \<lparr>seg_start = 1, seg_end = 2, seg_text = asc '' ''\<rparr>,
      \<lparr>seg_start = 2, seg_end = 3, seg_text = []\<rparr>]) = Inr out \<and> out \<noteq> [] \<and>
     last out = \<lparr>sentence = [], start_time = 1, end_time = 3, duration = 2\<rparr>"
proof -
  have c: "closes \<lparr>seg_start = 0::real, seg_end = 1, seg_text = asc ''Hi.''\<rparr>"
    by (simp add: closes_def punctuation_test_def trim_def isWhiteSpace_def isTerminal_def
        asc_def upt_rec)
  have t: "\<forall>s\<in>set [\<lparr>seg_start = 1::real, seg_end = 2, seg_text = asc '' ''\<rparr>,
      \<lparr>seg_start = 2, seg_end = 3, seg_text = []\<rparr>]. trim (seg_text s) = []"
    by (simp add: trim_def isWhiteSpace_def asc_def)
  show ?thesis
    using trailing_blank_sentence [OF c _ t, of "[]"] by simp
qed

section \<open>The examples of the specification, run on the loop\<close>

lemmas run_source = sentence_grouping_def segment_at_def for_loop.simps loop_body_def
  punctuation_test_def trim_def isWhiteSpace_def isTerminal_def asc_def upt_rec Let_def

lemma example_single_sentence:
  "sentence_grouping (Some [\<lparr>seg_start = 0::real, seg_end = 1, seg_text = asc ''Hello.''\<rparr>]) =
     Inr [\<lparr>sentence = asc ''Hello.'', start_time = 0, end_time = 1, duration = 1\<rparr>]"
  by (simp add: run_source)

lemma example_punctuation_on_second:
  "sentence_grouping (Some
     [\<lparr>seg_start = 0::real, seg_end = 1, seg_text = asc ''Hello''\<rparr>,
      \<lparr>seg_start = 1, seg_end = 2, seg_text = asc '' world.''\<rparr>]) =
     Inr [\<lparr>sentence = asc ''Hello world.'', start_time = 0, end_time = 2, duration = 2\<rparr>]"
  by (simp add: run_source)

lemma example_flush_without_punctuation:
  "sentence_grouping (Some
     [\<lparr>seg_start = 0::real, seg_end = 1, seg_text = asc ''Hi''\<rparr>,
      \<lparr>seg_start = 1, seg_end = 2, seg_text = asc ''there''\<rparr>]) =
     Inr [\<lparr>sentence = asc ''Hithere'', start_time = 0, end_time = 2, duration = 2\<rparr>]"
  by (simp add: run_source)

lemma example_two_sentences:
  "sentence_grouping (Some
     [\<lparr>seg_start = 0::real, seg_end = 1, seg_text = asc ''One.''\<rparr>,
      \<lparr>seg_start = 1, seg_end = 2, seg_text = asc '' Two''\<rparr>,
      \<lparr>seg_start = 2, seg_end = 3, seg_text = asc '' three!''\<rparr>]) =
     Inr [\<lparr>sentence = asc ''One.'', start_time = 0, end_time = 1, duration = 1\<rparr>,
          \<lparr>sentence = asc ''Two three!'', start_time = 1, end_time = 3, duration = 2\<rparr>]"
  by (simp add: run_source)

section \<open>Properties of the parameter bag\<close>

lemma foldl_assign_if:
  "foldl (assign_if a) m kgs k =
     (if \<exists>g. (k, g) \<in> set kgs \<and> passes g (param_value a k)
      then Some (param_value a k) else m k)"
proof (induction kgs arbitrary: m)
  case Nil
  then show ?case by simp
next
  case (Cons kg kgs)
  obtain k' g' where kg: "kg = (k', g')" by (cases kg)
  show ?case
    unfolding foldl_Cons Cons.IH kg
    by (auto simp: assign_if_def)
qed

lemma audio_file_not_optional: "(''audio_file'', g) \<notin> set input_guards"
  by (simp add: input_guards_def)

lemma build_input_lookup:
  "build_input url a k =
     (if \<exists>g. (k, g) \<in> set input_guards \<and> passes g (param_value a k)
      then Some (param_value a k)
      else if k = ''audio_file'' then Some (JString url) else None)"
  by (simp add: build_input_def foldl_assign_if audio_file_not_optional)

lemma build_input_audio_file: "build_input url a ''audio_file'' = Some (JString url)"
  by (simp add: build_input_lookup audio_file_not_optional)

lemma passes_defined: "passes g v \<Longrightarrow> v \<noteq> JUndefined"
  by (cases g) auto

lemma optional_keys_iff: "k \<in> set optional_keys \<longleftrightarrow> (\<exists>g. (k, g) \<in> set input_guards)"
  by (force simp: optional_keys_def)

lemma optional_not_audio_file: "k \<in> set optional_keys \<Longrightarrow> k \<noteq> ''audio_file''"
  using audio_file_not_optional by (auto simp: optional_keys_iff)

lemma distinct_keys: "distinct (map fst input_guards)"
  by (simp add: input_guards_def)

lemma guard_unique: "(k, g) \<in> set input_guards \<Longrightarrow> (k, g') \<in> set input_guards \<Longrightarrow> g = g'"
  using distinct_keys by (rule eq_key_imp_eq_value)

lemma build_input_guarded:
  assumes "(k, g) \<in> set input_guards"
  shows "build_input url a k = (if passes g (param_value a k) then Some (param_value a k) else None)"
proof -
  have "k \<noteq> ''audio_file''" using assms audio_file_not_optional by blast
  moreover have "(\<exists>g'. (k, g') \<in> set input_guards \<and> passes g' (param_value a k)) \<longleftrightarrow>
      passes g (param_value a k)"
    using assms guard_unique by blast
  ultimately show ?thesis by (simp add: build_input_lookup)
qed


lemma truthy_opt_string:
  "truthy (opt_string v) \<longleftrightarrow> opt_string v \<noteq> JUndefined \<and> opt_string v \<noteq> JString []"
  by (cases v) (simp_all add: opt_string_def)

lemma string_key_values:
  assumes "k = ''language'' \<or> k = ''initial_prompt'' \<or> k = ''huggingface_access_token''"
  shows "(k, Truthy) \<in> set input_guards"
    and "truthy (param_value a k) \<longleftrightarrow>
         param_value a k \<noteq> JUndefined \<and> param_value a k \<noteq> JString []"
proof -
  show "(k, Truthy) \<in> set input_guards"
    using assms by (elim disjE) (simp_all add: input_guards_def)
  show "truthy (param_value a k) \<longleftrightarrow>
         param_value a k \<noteq> JUndefined \<and> param_value a k \<noteq> JString []"
    using assms by (elim disjE) (simp_all add: param_value_def truthy_opt_string)
qed

lemma truthy_opt_number:
  "truthy (opt_number v) \<longleftrightarrow> opt_number v \<noteq> JUndefined \<and> opt_number v \<noteq> JNumber 0"
  by (cases v) (simp_all add: opt_number_def)

lemma number_key_values:
  assumes "k = ''language_detection_min_prob'' \<or> k = ''language_detection_max_tries''"
  shows "(k, Truthy) \<in> set input_guards"
    and "truthy (param_value a k) \<longleftrightarrow>
         param_value a k \<noteq> JUndefined \<and> param_value a k \<noteq> JNumber 0"
proof -
  show "(k, Truthy) \<in> set input_guards"
    using assms by (elim disjE) (simp_all add: input_guards_def)
  show "truthy (param_value a k) \<longleftrightarrow>
         param_value a k \<noteq> JUndefined \<and> param_value a k \<noteq> JNumber 0"
    using assms by (elim disjE) (simp_all add: param_value_def truthy_opt_number)
qed

lemma defaulted_key_values:
  assumes "k = ''temperature'' \<or> k = ''batch_size'' \<or> k = ''vad_onset'' \<or> k = ''vad_offset'' \<or>
           k = ''align_output'' \<or> k = ''diarization'' \<or> k = ''debug''"
  shows "(k, Defined) \<in> set input_guards" and "param_value a k \<noteq> JUndefined"
proof -
  show "(k, Defined) \<in> set input_guards"
    using assms by (elim disjE) (simp_all add: input_guards_def)
  show "param_value a k \<noteq> JUndefined"
    using assms by (elim disjE) (simp_all add: param_value_def)
qed

text \<open>
  Claim C4, as amended. The values are those of the handler's variables, after the
  defaults of its parameter list. The bag always holds \<open>audio_file\<close> and no key other
  than it and the fourteen optional keys. An optional key whose value is undefined is
  omitted, and a key that is present carries the value unchanged. The keys guarded by
  \<^verbatim>\<open>!== undefined\<close> are omitted exactly when the value is undefined; the seven with a
  default are therefore always present. The string keys \<open>language\<close>,
  \<open>initial_prompt\<close> and \<open>huggingface_access_token\<close> are omitted exactly when the
  value is undefined or the empty string. The number keys
  \<open>language_detection_min_prob\<close> and \<open>language_detection_max_tries\<close> are present
  when the value is a number other than zero.
\<close>

theorem bag_omits_undefined_and_falsy:
  "build_input url a ''audio_file'' = Some (JString url) \<and>
   dom (build_input url a) \<subseteq> insert ''audio_file'' (set optional_keys) \<and>
   (\<forall>k\<in>set optional_keys.
      (param_value a k = JUndefined \<longrightarrow> build_input url a k = None) \<and>
      (build_input url a k \<noteq> None \<longrightarrow>
         build_input url a k = Some (param_value a k) \<and> param_value a k \<noteq> JUndefined) \<and>
      ((k, Defined) \<in> set input_guards \<longrightarrow>
         (build_input url a k = None \<longleftrightarrow> param_value a k = JUndefined)) \<and>
      (k = ''language'' \<or> k = ''initial_prompt'' \<or> k = ''huggingface_access_token'' \<longrightarrow>
         (build_input url a k = None \<longleftrightarrow>
            param_value a k = JUndefined \<or> param_value a k = JString [])) \<and>
      (k = ''language_detection_min_prob'' \<or> k = ''language_detection_max_tries'' \<longrightarrow>
         (param_value a k \<noteq> JUndefined \<and> param_value a k \<noteq> JNumber 0 \<longrightarrow>
            build_input url a k = Some (param_value a k)))) \<and>
   (\<forall>k\<in>set [''temperature'', ''batch_size'', ''vad_onset'', ''vad_offset'',
              ''align_output'', ''diarization'', ''debug''].
      build_input url a k = Some (param_value a k))"
proof (intro conjI ballI)
  show "build_input url a ''audio_file'' = Some (JString url)"
    by (rule build_input_audio_file)
next
  show "dom (build_input url a) \<subseteq> insert ''audio_file'' (set optional_keys)"
    by (auto simp: build_input_lookup optional_keys_iff split: if_splits)
next
  fix k assume "k \<in> set optional_keys"
  then obtain g where g: "(k, g) \<in> set input_guards"
    using optional_keys_iff by blast
  note look = build_input_guarded [OF g, of url a]
  show "param_value a k = JUndefined \<longrightarrow> build_input url a k = None"
    using passes_defined [of g "param_value a k"] by (auto simp: look)
  show "build_input url a k \<noteq> None \<longrightarrow>
         build_input url a k = Some (param_value a k) \<and> param_value a k \<noteq> JUndefined"
    using passes_defined [of g "param_value a k"] by (auto simp: look split: if_splits)
  show "(k, Defined) \<in> set input_guards \<longrightarrow>
         (build_input url a k = None \<longleftrightarrow> param_value a k = JUndefined)"
    using guard_unique [OF g] by (auto simp: look)
  show "k = ''language'' \<or> k = ''initial_prompt'' \<or> k = ''huggingface_access_token'' \<longrightarrow>
         (build_input url a k = None \<longleftrightarrow>
            param_value a k = JUndefined \<or> param_value a k = JString [])"
  proof
    assume k: "k = ''language'' \<or> k = ''initial_prompt'' \<or> k = ''huggingface_access_token''"
    have "g = Truthy" using guard_unique [OF g string_key_values(1) [OF k]] .
    then show "build_input url a k = None \<longleftrightarrow>
            param_value a k = JUndefined \<or> param_value a k = JString []"
      using string_key_values(2) [OF k, of a] by (auto simp: look)
  qed
  show "k = ''language_detection_min_prob'' \<or> k = ''language_detection_max_tries'' \<longrightarrow>
         (param_value a k \<noteq> JUndefined \<and> param_value a k \<noteq> JNumber 0 \<longrightarrow>
            build_input url a k = Some (param_value a k))"
  proof
    assume k: "k = ''language_detection_min_prob'' \<or> k = ''language_detection_max_tries''"
    have "g = Truthy" using guard_unique [OF g number_key_values(1) [OF k]] .
    then show "param_value a k \<noteq> JUndefined \<and> param_value a k \<noteq> JNumber 0 \<longrightarrow>
            build_input url a k = Some (param_value a k)"
      using number_key_values(2) [OF k, of a] by (auto simp: look)
  qed
next
  fix k assume "k \<in> set [''temperature'', ''batch_size'', ''vad_onset'', ''vad_offset'',
              ''align_output'', ''diarization'', ''debug'']"
  then have k: "k = ''temperature'' \<or> k = ''batch_size'' \<or> k = ''vad_onset'' \<or>
      k = ''vad_offset'' \<or> k = ''align_output'' \<or> k = ''diarization'' \<or> k = ''debug''"
    by simp
  show "build_input url a k = Some (param_value a k)"
    using defaulted_key_values(2) [OF k, of a]
    by (simp add: build_input_guarded [OF defaulted_key_values(1) [OF k]])
qed

theorem bag_omits_undefined_and_falsy_witness:
  "build_input (asc ''https://host/talk.wav'')
      \<lparr>audio_file = asc ''talk.wav'', language = Some (asc ''fr''),
       language_detection_min_prob = None, language_detection_max_tries = Some 3,
       initial_prompt = None, batch_size = None, temperature = None,
       vad_onset = None, vad_offset = None, align_output = None, diarization = Some False,
       huggingface_access_token = None, min_speakers = None, max_speakers = None,
       debug = None, filename = None\<rparr> ''language'' = Some (JString (asc ''fr'')) \<and>
   build_input (asc ''https://host/talk.wav'')
      \<lparr>audio_file = asc ''talk.wav'', language = Some (asc ''fr''),
       language_detection_min_prob = None, language_detection_max_tries = Some 3,
       initial_prompt = None, batch_size = None, temperature = None,
       vad_onset = None, vad_offset = None, align_output = None, diarization = Some False,
       huggingface_access_token = None, min_speakers = None, max_speakers = None,
       debug = None, filename = None\<rparr> ''language_detection_max_tries'' = Some (JNumber 3) \<and>
   build_input (asc ''https://host/talk.wav'')
      \<lparr>audio_file = asc ''talk.wav'', language = Some (asc ''fr''),
       language_detection_min_prob = None, language_detection_max_tries = Some 3,
       initial_prompt = None, batch_size = None, temperature = None,
       vad_onset = None, vad_offset = None, align_output = None, diarization = Some False,
       huggingface_access_token = None, min_speakers = None, max_speakers = None,
       debug = None, filename = None\<rparr> ''diarization'' = Some (JBoolean False) \<and>
   build_input (asc ''https://host/talk.wav'')
      \<lparr>audio_file = asc ''talk.wav'', language = Some (asc ''fr''),
       language_detection_min_prob = None, language_detection_max_tries = Some 3,
       initial_prompt = None, batch_size = None, temperature = None,
       vad_onset = None, vad_offset = None, align_output = None, diarization = Some False,
       huggingface_access_token = None, min_speakers = None, max_speakers = None,
       debug = None, filename = None\<rparr> ''min_speakers'' = None"
proof -
  define u where "u = asc ''https://host/talk.wav''"
  define a where "a = \<lparr>audio_file = asc ''talk.wav'', language = Some (asc ''fr''),
       language_detection_min_prob = None, language_detection_max_tries = Some 3,
       initial_prompt = None, batch_size = None, temperature = None,
       vad_onset = None, vad_offset = None, align_output = None, diarization = Some False,
       huggingface_access_token = None, min_speakers = None, max_speakers = None,
       debug = None, filename = None\<rparr>"
  note evals = a_def param_value_def opt_string_def opt_number_def with_default_def
  note key = bag_omits_undefined_and_falsy [of u a, THEN conjunct2, THEN conjunct2,
      THEN conjunct1, THEN bspec]
  have ne: "asc ''fr'' \<noteq> []" by (simp add: asc_def)
  have language: "build_input u a ''language'' = Some (JString (asc ''fr''))"
  proof -
    have mem: "''language'' \<in> set optional_keys"
      by (simp add: optional_keys_def input_guards_def)
    have "build_input u a ''language'' \<noteq> None"
      using key [OF mem, THEN conjunct2, THEN conjunct2, THEN conjunct2, THEN conjunct1] ne
      by (simp add: evals)
    then have "build_input u a ''language'' = Some (param_value a ''language'')"
      using key [OF mem, THEN conjunct2, THEN conjunct1] by blast
    then show ?thesis by (simp add: evals)
  qed
  have tries: "build_input u a ''language_detection_max_tries'' = Some (JNumber 3)"
  proof -
    have mem: "''language_detection_max_tries'' \<in> set optional_keys"
      by (simp add: optional_keys_def input_guards_def)
    show ?thesis
      using key [OF mem, THEN conjunct2, THEN conjunct2, THEN conjunct2, THEN conjunct2]
      by (simp add: evals)
  qed
  have diarization: "build_input u a ''diarization'' = Some (JBoolean False)"
  proof -
    have mem: "''diarization'' \<in> set optional_keys"
      by (simp add: optional_keys_def input_guards_def)
    have "build_input u a ''diarization'' \<noteq> None"
      using key [OF mem, THEN conjunct2, THEN conjunct2, THEN conjunct1]
      by (simp add: evals input_guards_def)
    then have "build_input u a ''diarization'' = Some (param_value a ''diarization'')"
      using key [OF mem, THEN conjunct2, THEN conjunct1] by blast
    then show ?thesis by (simp add: evals)
  qed
  have speakers: "build_input u a ''min_speakers'' = None"
  proof -
    have mem: "''min_speakers'' \<in> set optional_keys"
      by (simp add: optional_keys_def input_guards_def)
    show ?thesis
      using key [OF mem, THEN conjunct1] by (simp add: evals)
  qed
  show ?thesis
    using language tries diarization speakers unfolding u_def a_def by blast
qed

text \<open>
  The claim as it was stated fails: with \<open>initial_prompt\<close> the empty string, the value
  is not undefined and the key is omitted.
\<close>

theorem bag_omits_defined_value_counterexample:
  "param_value
      \<lparr>audio_file = asc ''talk.wav'', language = None,
       language_detection_min_prob = None, language_detection_max_tries = None,
       initial_prompt = Some [], batch_size = None, temperature = None,
       vad_onset = None, vad_offset = None, align_output = None, diarization = None,
       huggingface_access_token = None, min_speakers = None, max_speakers = None,
       debug = None, filename = None\<rparr> ''initial_prompt'' \<noteq> JUndefined \<and>
   build_input (asc ''https://host/talk.wav'')
      \<lparr>audio_file = asc ''talk.wav'', language = None,
       language_detection_min_prob = None, language_detection_max_tries = None,
       initial_prompt = Some [], batch_size = None, temperature = None,
       vad_onset = None, vad_offset = None, align_output = None, diarization = None,
       huggingface_access_token = None, min_speakers = None, max_speakers = None,
       debug = None, filename = None\<rparr> ''initial_prompt'' = None"
  by (simp add: build_input_lookup input_guards_def param_value_def opt_string_def)

section \<open>Failures inside the handler\<close>

lemma grouping_total: "\<exists>ts. sentence_grouping segs = Inr ts"
proof (cases segs)
  case None
  then show ?thesis by (simp add: sentence_grouping_def)
next
  case (Some s)
  then show ?thesis by (simp add: grouping_runs)
qed

lemma error_text_cases:
  "error_text e = Inl f \<longleftrightarrow> e = Unrenderable \<and> f = conversion_TypeError"
  by (cases e) (auto simp: error_text_def)

lemma handler_of_failure:
  "handler_body env a = Inl e \<Longrightarrow> error_text e = Inr m \<Longrightarrow>
   handler env a = Inr (ErrorMessage (asc ''Error transcribing audio: '' @ m))"
  by (simp add: handler_def and_then_def)

lemma handler_of_unrenderable:
  "handler_body env a = Inl Unrenderable \<Longrightarrow> handler env a = Inl conversion_TypeError"
  by (simp add: handler_def and_then_def error_text_def)

lemma handler_returns_iff:
  "(\<exists>r. handler env a = Inr r) \<longleftrightarrow> handler_body env a \<noteq> Inl Unrenderable"
proof (cases "handler_body env a")
  case (Inl e)
  then show ?thesis
    by (cases e) (simp_all add: handler_def and_then_def error_text_def)
next
  case (Inr s)
  then show ?thesis by (simp add: handler_def)
qed

lemma ensure_bucket_list_error:
  "listBuckets env = Inr (d, Some m) \<Longrightarrow>
   ensure_bucket env = Inl (ErrorValue (asc ''Failed to list buckets: '' @ m))"
  by (simp add: ensure_bucket_def and_then_def)

lemma ensure_bucket_create_error:
  "listBuckets env = Inr (d, None) \<Longrightarrow> \<not> audioBucketExists d \<Longrightarrow>
   createBucket env = Inr (Some m) \<Longrightarrow>
   ensure_bucket env = Inl (ErrorValue (asc ''Failed to create audio bucket: '' @ m))"
  by (simp add: ensure_bucket_def and_then_def)

lemma upload_file_error:
  "readFileSync env = Inr () \<Longrightarrow> upload env = Inr (Some m) \<Longrightarrow>
   upload_file env = Inl (ErrorValue (asc ''Failed to upload file to Supabase: '' @ m))"
  by (simp add: upload_file_def and_then_def)

lemma transcribe_no_output:
  "replicate_run env (build_input url a) = Inr None \<Longrightarrow>
   transcribe env a url = Inl (ErrorValue (asc ''No output received from Replicate API''))"
  by (simp add: transcribe_def and_then_def)

lemma transcribe_rejects:
  "replicate_run env (build_input url a) = Inl e \<Longrightarrow> transcribe env a url = Inl e"
  by (simp add: transcribe_def and_then_def)

lemma persist_write_error:
  assumes "mkdirSync env = Inr ()"
    and "text_content (clock_time env) (case segments out of None \<Rightarrow> [] | Some segs \<Rightarrow> segs) = Inr t"
    and "writeFileSync env k = Inl e"
    and "\<forall>k'. k' \<noteq> k \<longrightarrow> writeFileSync env k' = Inr ()"
  shows "persist env out = Inl e"
proof -
  obtain ts where ts: "sentence_grouping (segments out) = Inr ts"
    using grouping_total by blast
  show ?thesis
    using assms ts by (cases k) (simp_all add: persist_def and_then_def)
qed

text \<open>
  What the catch clause does achieve: a failure of the body whose thrown value converts
  to a string becomes the text \<open>Error transcribing audio: \<close> followed by that string.
  The errors that the body raises itself are of this kind: a failed listing of the
  buckets, a failed creation of the bucket, a failed upload and an absent inference
  result. So is a failed write of an artifact whose error converts to a string.
\<close>

lemma handler_failure_kinds:
  "(\<forall>e m. handler_body env a = Inl e \<and> error_text e = Inr m \<longrightarrow>
      handler env a = Inr (ErrorMessage (asc ''Error transcribing audio: '' @ m))) \<and>
   (\<forall>d m. listBuckets env = Inr (d, Some m) \<longrightarrow>
      handler env a = Inr (ErrorMessage
        (asc ''Error transcribing audio: '' @ asc ''Failed to list buckets: '' @ m))) \<and>
   (\<forall>d m. listBuckets env = Inr (d, None) \<and> \<not> audioBucketExists d \<and>
        createBucket env = Inr (Some m) \<longrightarrow>
      handler env a = Inr (ErrorMessage
        (asc ''Error transcribing audio: '' @ asc ''Failed to create audio bucket: '' @ m))) \<and>
   (\<forall>m. ensure_bucket env = Inr () \<and> readFileSync env = Inr () \<and>
        upload env = Inr (Some m) \<longrightarrow>
      handler env a = Inr (ErrorMessage
        (asc ''Error transcribing audio: '' @ asc ''Failed to upload file to Supabase: '' @ m))) \<and>
   (\<forall>url. ensure_bucket env = Inr () \<and> upload_file env = Inr url \<and>
        replicate_run env (build_input url a) = Inr None \<longrightarrow>
      handler env a = Inr (ErrorMessage
        (asc ''Error transcribing audio: '' @ asc ''No output received from Replicate API''))) \<and>
   (\<forall>url out t k e m. ensure_bucket env = Inr () \<and> upload_file env = Inr url \<and>
        transcribe env a url = Inr out \<and> mkdirSync env = Inr () \<and>
        text_content (clock_time env) (case segments out of None \<Rightarrow> [] | Some segs \<Rightarrow> segs) = Inr t \<and>
        writeFileSync env k = Inl e \<and> (\<forall>k'. k' \<noteq> k \<longrightarrow> writeFileSync env k' = Inr ()) \<and>
        error_text e = Inr m \<longrightarrow>
      handler env a = Inr (ErrorMessage (asc ''Error transcribing audio: '' @ m)))"
proof (intro conjI allI impI)
  fix e m assume "handler_body env a = Inl e \<and> error_text e = Inr m"
  then show "handler env a = Inr (ErrorMessage (asc ''Error transcribing audio: '' @ m))"
    using handler_of_failure by blast
next
  fix d m assume "listBuckets env = Inr (d, Some m)"
  then have "handler_body env a = Inl (ErrorValue (asc ''Failed to list buckets: '' @ m))"
    by (simp add: handler_body_def ensure_bucket_list_error and_then_def)
  then show "handler env a = Inr (ErrorMessage
        (asc ''Error transcribing audio: '' @ asc ''Failed to list buckets: '' @ m))"
    by (rule handler_of_failure) (simp add: error_text_def)
next
  fix d m
  assume "listBuckets env = Inr (d, None) \<and> \<not> audioBucketExists d \<and>
        createBucket env = Inr (Some m)"
  then have "ensure_bucket env = Inl (ErrorValue (asc ''Failed to create audio bucket: '' @ m))"
    using ensure_bucket_create_error by blast
  then have "handler_body env a = Inl (ErrorValue (asc ''Failed to create audio bucket: '' @ m))"
    by (simp add: handler_body_def and_then_def)
  then show "handler env a = Inr (ErrorMessage
        (asc ''Error transcribing audio: '' @ asc ''Failed to create audio bucket: '' @ m))"
    by (rule handler_of_failure) (simp add: error_text_def)
next
  fix m
  assume h: "ensure_bucket env = Inr () \<and> readFileSync env = Inr () \<and> upload env = Inr (Some m)"
  then have "upload_file env = Inl (ErrorValue (asc ''Failed to upload file to Supabase: '' @ m))"
    using upload_file_error by blast
  then have "handler_body env a =
      Inl (ErrorValue (asc ''Failed to upload file to Supabase: '' @ m))"
    using h by (simp add: handler_body_def and_then_def)
  then show "handler env a = Inr (ErrorMessage
        (asc ''Error transcribing audio: '' @ asc ''Failed to upload file to Supabase: '' @ m))"
    by (rule handler_of_failure) (simp add: error_text_def)
next
  fix url
  assume h: "ensure_bucket env = Inr () \<and> upload_file env = Inr url \<and>
        replicate_run env (build_input url a) = Inr None"
  then have "transcribe env a url =
      Inl (ErrorValue (asc ''No output received from Replicate API''))"
    using transcribe_no_output by blast
  then have "handler_body env a =
      Inl (ErrorValue (asc ''No output received from Replicate API''))"
    using h by (simp add: handler_body_def and_then_def)
  then show "handler env a = Inr (ErrorMessage
        (asc ''Error transcribing audio: '' @ asc ''No output received from Replicate API''))"
    by (rule handler_of_failure) (simp add: error_text_def)
next
  fix url out t k e m
  assume h: "ensure_bucket env = Inr () \<and> upload_file env = Inr url \<and>
        transcribe env a url = Inr out \<and> mkdirSync env = Inr () \<and>
        text_content (clock_time env) (case segments out of None \<Rightarrow> [] | Some segs \<Rightarrow> segs) = Inr t \<and>
        writeFileSync env k = Inl e \<and> (\<forall>k'. k' \<noteq> k \<longrightarrow> writeFileSync env k' = Inr ()) \<and>
        error_text e = Inr m"
  then have "persist env out = Inl e"
    using persist_write_error [of env out t k e] by blast
  then have "handler_body env a = Inl e"
    using h by (simp add: handler_body_def and_then_def)
  then show "handler env a = Inr (ErrorMessage (asc ''Error transcribing audio: '' @ m))"
    using h handler_of_failure by blast
qed

lemma handler_failure_examples:
  "handler
      \<lparr>listBuckets = Inr (None, Some (asc ''denied'')), createBucket = Inr None,
       readFileSync = Inr (), upload = Inr None,
       getPublicUrl = Inr (asc ''https://host/talk.wav''),
       replicate_run = (\<lambda>input. Inr (Some
          \<lparr>detected_language = Some (asc ''en''),
           segments = Some [\<lparr>seg_start = 0::real, seg_end = 1, seg_text = asc ''Hello.''\<rparr>]\<rparr>)),
       mkdirSync = Inr (), writeFileSync = (\<lambda>k. Inr ()),
       clock_time = (\<lambda>t::real. Inr (asc ''00:00:00.000''))\<rparr>
      \<lparr>audio_file = asc ''talk.wav'', language = None,
       language_detection_min_prob = None, language_detection_max_tries = None,
       initial_prompt = None, batch_size = None, temperature = None,
       vad_onset = None, vad_offset = None, align_output = None, diarization = None,
       huggingface_access_token = None, min_speakers = None, max_speakers = None,
       debug = None, filename = None\<rparr> =
     Inr (ErrorMessage (asc ''Error transcribing audio: Failed to list buckets: denied'')) \<and>
   handler
      \<lparr>listBuckets = Inr (Some [asc ''images''], None), createBucket = Inr (Some (asc ''quota'')),
       readFileSync = Inr (), upload = Inr None,
       getPublicUrl = Inr (asc ''https://host/talk.wav''),
       replicate_run = (\<lambda>input. Inr (Some
          \<lparr>detected_language = Some (asc ''en''),
           segments = Some [\<lparr>seg_start = 0::real, seg_end = 1, seg_text = asc ''Hello.''\<rparr>]\<rparr>)),
       mkdirSync = Inr (), writeFileSync = (\<lambda>k. Inr ()),
       clock_time = (\<lambda>t::real. Inr (asc ''00:00:00.000''))\<rparr>
      \<lparr>audio_file = asc ''talk.wav'', language = None,
       language_detection_min_prob = None, language_detection_max_tries = None,
       initial_prompt = None, batch_size = None, temperature = None,
       vad_onset = None, vad_offset = None, align_output = None, diarization = None,
       huggingface_access_token = None, min_speakers = None, max_speakers = None,
       debug = None, filename = None\<rparr> =
     Inr (ErrorMessage (asc ''Error transcribing audio: Failed to create audio bucket: quota'')) \<and>
   handler
      \<lparr>listBuckets = Inr (Some [asc ''audio''], None), createBucket = Inr None,
       readFileSync = Inr (), upload = Inr (Some (asc ''too large'')),
       getPublicUrl = Inr (asc ''https://host/talk.wav''),
       replicate_run = (\<lambda>input. Inr (Some
          \<lparr>detected_language = Some (asc ''en''),
           segments = Some [\<lparr>seg_start = 0::real, seg_end = 1, seg_text = asc ''Hello.''\<rparr>]\<rparr>)),
       mkdirSync = Inr (), writeFileSync = (\<lambda>k. Inr ()),
       clock_time = (\<lambda>t::real. Inr (asc ''00:00:00.000''))\<rparr>
      \<lparr>audio_file = asc ''talk.wav'', language = None,
       language_detection_min_prob = None, language_detection_max_tries = None,
       initial_prompt = None, batch_size = None, temperature = None,
       vad_onset = None, vad_offset = None, align_output = None, diarization = None,
       huggingface_access_token = None, min_speakers = None, max_speakers = None,
       debug = None, filename = None\<rparr> =
     Inr (ErrorMessage (asc ''Error transcribing audio: Failed to upload file to Supabase: too large'')) \<and>
   handler
      \<lparr>listBuckets = Inr (Some [asc ''audio''], None), createBucket = Inr None,
       readFileSync = Inr (), upload = Inr None,
       getPublicUrl = Inr (asc ''https://host/talk.wav''),
       replicate_run = (\<lambda>input. Inr None),
       mkdirSync = Inr (), writeFileSync = (\<lambda>k. Inr ()),
       clock_time = (\<lambda>t::real. Inr (asc ''00:00:00.000''))\<rparr>
      \<lparr>audio_file = asc ''talk.wav'', language = None,
       language_detection_min_prob = None, language_detection_max_tries = None,
       initial_prompt = None, batch_size = None, temperature = None,
       vad_onset = None, vad_offset = None, align_output = None, diarization = None,
       huggingface_access_token = None, min_speakers = None, max_speakers = None,
       debug = None, filename = None\<rparr> =
     Inr (ErrorMessage (asc ''Error transcribing audio: No output received from Replicate API'')) \<and>
   handler
      \<lparr>listBuckets = Inr (Some [asc ''audio''], None), createBucket = Inr None,
       readFileSync = Inr (), upload = Inr None,
       getPublicUrl = Inr (asc ''https://host/talk.wav''),
       replicate_run = (\<lambda>input. Inr (Some
          \<lparr>detected_language = Some (asc ''en''),
           segments = Some [\<lparr>seg_start = 0::real, seg_end = 1, seg_text = asc ''Hello.''\<rparr>]\<rparr>)),
       mkdirSync = Inr (), writeFileSync = (\<lambda>k. if k = SentencesJson then Inl (ErrorValue (asc ''ENOSPC'')) else Inr ()),
       clock_time = (\<lambda>t::real. Inr (asc ''00:00:00.000''))\<rparr>
      \<lparr>audio_file = asc ''talk.wav'', language = None,
       language_detection_min_prob = None, language_detection_max_tries = None,
       initial_prompt = None, batch_size = None, temperature = None,
       vad_onset = None, vad_offset = None, align_output = None, diarization = None,
       huggingface_access_token = None, min_speakers = None, max_speakers = None,
       debug = None, filename = None\<rparr> =
     Inr (ErrorMessage (asc ''Error transcribing audio: ENOSPC''))"
proof -
  define a where "a = \<lparr>audio_file = asc ''talk.wav'', language = None,
       language_detection_min_prob = None, language_detection_max_tries = None,
       initial_prompt = None, batch_size = None, temperature = None,
       vad_onset = None, vad_offset = None, align_output = None, diarization = None,
       huggingface_access_token = None, min_speakers = None, max_speakers = None,
       debug = None, filename = None\<rparr>"
  define e1 where "e1 = \<lparr>listBuckets = Inr (None, Some (asc ''denied'')), createBucket = Inr None,
       readFileSync = Inr (), upload = Inr None,
       getPublicUrl = Inr (asc ''https://host/talk.wav''),
       replicate_run = (\<lambda>input. Inr (Some
          \<lparr>detected_language = Some (asc ''en''),
           segments = Some [\<lparr>seg_start = 0::real, seg_end = 1, seg_text = asc ''Hello.''\<rparr>]\<rparr>)),
       mkdirSync = Inr (), writeFileSync = (\<lambda>k. Inr ()),
       clock_time = (\<lambda>t::real. Inr (asc ''00:00:00.000''))\<rparr>"
  define e2 where "e2 = \<lparr>listBuckets = Inr (Some [asc ''images''], None), createBucket = Inr (Some (asc ''quota'')),
       readFileSync = Inr (), upload = Inr None,
       getPublicUrl = Inr (asc ''https://host/talk.wav''),
       replicate_run = (\<lambda>input. Inr (Some
          \<lparr>detected_language = Some (asc ''en''),
           segments = Some [\<lparr>seg_start = 0::real, seg_end = 1, seg_text = asc ''Hello.''\<rparr>]\<rparr>)),
       mkdirSync = Inr (), writeFileSync = (\<lambda>k. Inr ()),
       clock_time = (\<lambda>t::real. Inr (asc ''00:00:00.000''))\<rparr>"
  define e3 where "e3 = \<lparr>listBuckets = Inr (Some [asc ''audio''], None), createBucket = Inr None,
       readFileSync = Inr (), upload = Inr (Some (asc ''too large'')),
       getPublicUrl = Inr (asc ''https://host/talk.wav''),
       replicate_run = (\<lambda>input. Inr (Some
          \<lparr>detected_language = Some (asc ''en''),
           segments = Some [\<lparr>seg_start = 0::real, seg_end = 1, seg_text = asc ''Hello.''\<rparr>]\<rparr>)),
       mkdirSync = Inr (), writeFileSync = (\<lambda>k. Inr ()),
       clock_time = (\<lambda>t::real. Inr (asc ''00:00:00.000''))\<rparr>"
  define e4 where "e4 = \<lparr>listBuckets = Inr (Some [asc ''audio''], None), createBucket = Inr None,
       readFileSync = Inr (), upload = Inr None,
       getPublicUrl = Inr (asc ''https://host/talk.wav''),
       replicate_run = (\<lambda>input. Inr None),
       mkdirSync = Inr (), writeFileSync = (\<lambda>k. Inr ()),
       clock_time = (\<lambda>t::real. Inr (asc ''00:00:00.000''))\<rparr>"
  define e5 where "e5 = \<lparr>listBuckets = Inr (Some [asc ''audio''], None), createBucket = Inr None,
       readFileSync = Inr (), upload = Inr None,
       getPublicUrl = Inr (asc ''https://host/talk.wav''),
       replicate_run = (\<lambda>input. Inr (Some
          \<lparr>detected_language = Some (asc ''en''),
           segments = Some [\<lparr>seg_start = 0::real, seg_end = 1, seg_text = asc ''Hello.''\<rparr>]\<rparr>)),
       mkdirSync = Inr (), writeFileSync = (\<lambda>k. if k = SentencesJson then Inl (ErrorValue (asc ''ENOSPC'')) else Inr ()),
       clock_time = (\<lambda>t::real. Inr (asc ''00:00:00.000''))\<rparr>"
  note steps = ensure_bucket_def upload_file_def transcribe_def and_then_def
    audioBucketExists_def asc_def
  have c1: "handler e1 a = Inr (ErrorMessage (asc ''Error transcribing audio: Failed to list buckets: denied''))"
    using handler_failure_kinds [of e1 a, THEN conjunct2, THEN conjunct1,
        rule_format, of None "asc ''denied''"]
    by (simp add: e1_def asc_def)
  have c2: "handler e2 a = Inr (ErrorMessage (asc ''Error transcribing audio: Failed to create audio bucket: quota''))"
    using handler_failure_kinds [of e2 a, THEN conjunct2, THEN conjunct2,
        THEN conjunct1, rule_format, of "Some [asc ''images'']" "asc ''quota''"]
    by (simp add: e2_def steps)
  have c3: "handler e3 a = Inr (ErrorMessage (asc ''Error transcribing audio: Failed to upload file to Supabase: too large''))"
    using handler_failure_kinds [of e3 a, THEN conjunct2, THEN conjunct2,
        THEN conjunct2, THEN conjunct1, rule_format, of "asc ''too large''"]
    by (simp add: e3_def steps)
  have c4: "handler e4 a = Inr (ErrorMessage (asc ''Error transcribing audio: No output received from Replicate API''))"
    using handler_failure_kinds [of e4 a, THEN conjunct2, THEN conjunct2,
        THEN conjunct2, THEN conjunct2, THEN conjunct1, rule_format,
        of "asc ''https://host/talk.wav''"]
    by (simp add: e4_def steps)
  have "\<exists>t. text_content (clock_time e5)
      [\<lparr>seg_start = 0::real, seg_end = 1, seg_text = asc ''Hello.''\<rparr>] = Inr t"
    by (simp add: e5_def and_then_def)
  then obtain t where t: "text_content (clock_time e5)
      [\<lparr>seg_start = 0::real, seg_end = 1, seg_text = asc ''Hello.''\<rparr>] = Inr t"
    by blast
  have prem: "ensure_bucket e5 = Inr () \<and>
      upload_file e5 = Inr (asc ''https://host/talk.wav'') \<and>
      transcribe e5 a (asc ''https://host/talk.wav'') = Inr
          \<lparr>detected_language = Some (asc ''en''),
           segments = Some [\<lparr>seg_start = 0::real, seg_end = 1, seg_text = asc ''Hello.''\<rparr>]\<rparr> \<and>
      mkdirSync e5 = Inr () \<and>
      text_content (clock_time e5)
        (case segments
          \<lparr>detected_language = Some (asc ''en''),
           segments = Some [\<lparr>seg_start = 0::real, seg_end = 1, seg_text = asc ''Hello.''\<rparr>]\<rparr> of
           None \<Rightarrow> [] | Some segs \<Rightarrow> segs) = Inr t \<and>
      writeFileSync e5 SentencesJson = Inl (ErrorValue (asc ''ENOSPC'')) \<and>
      (\<forall>k'. k' \<noteq> SentencesJson \<longrightarrow> writeFileSync e5 k' = Inr ()) \<and>
      error_text (ErrorValue (asc ''ENOSPC'')) = Inr (asc ''ENOSPC'')"
    using t by (simp add: e5_def ensure_bucket_def upload_file_def transcribe_def and_then_def
        audioBucketExists_def error_text_def)
  have c5: "handler e5 a = Inr (ErrorMessage (asc ''Error transcribing audio: ENOSPC''))"
    using handler_failure_kinds [of e5 a, THEN conjunct2, THEN conjunct2,
        THEN conjunct2, THEN conjunct2, THEN conjunct2, rule_format, OF prem]
    by (simp add: asc_def)
  show ?thesis
    using c1 c2 c3 c4 c5 unfolding a_def e1_def e2_def e3_def e4_def e5_def by blast
qed


end
